theory Spec2Isabelle
  imports Main
begin

section \<open>Python strings and integers\<close>

text \<open>
  Python's \<^verbatim>\<open>str\<close> is modelled as \<^typ>\<open>string\<close>, its unbounded \<^verbatim>\<open>int\<close> as \<^typ>\<open>int\<close>.
  An exception is a value of \<open>py_error\<close>; a function that may raise returns
  \<open>py_error + 'a\<close> with \<open>Inl\<close> the exception.
\<close>

datatype py_error =
    BaseException string
  | NeuroBlueprintError string
  | AssertionError string

text \<open>\<^verbatim>\<open>str(n)\<close> for an integer: decimal digits, most significant first, a leading
  minus sign for a negative number.\<close>

definition digit_char :: "nat \<Rightarrow> char" where
  "digit_char d = ''0123456789'' ! d"

function str_nat :: "nat \<Rightarrow> string" where
  "str_nat n = (if n < 10 then [digit_char n] else str_nat (n div 10) @ [digit_char (n mod 10)])"
  by pat_completeness auto
termination
  by (relation "measure (\<lambda>n. n)") auto

declare str_nat.simps [simp del]

definition str_int :: "int \<Rightarrow> string" where
  "str_int i = (if i < 0 then CHR ''-'' # str_nat (nat (- i)) else str_nat (nat i))"

text \<open>\<^verbatim>\<open>s.zfill(width)\<close>: zeros are put on the left until the string has \<open>width\<close>
  characters, after a leading sign if there is one; a string that is already that long is
  returned as it is.\<close>

definition zfill :: "string \<Rightarrow> int \<Rightarrow> string" where
  "zfill s width =
     (if width \<le> int (length s) then s
      else (let pad = replicate (nat (width - int (length s))) CHR ''0''
            in (case s of
                  [] \<Rightarrow> pad
                | c # cs \<Rightarrow> if c = CHR ''+'' \<or> c = CHR ''-'' then c # pad @ cs else pad @ s)))"

text \<open>\<^verbatim>\<open>max(xs)\<close> of a list that is not empty (the caller guards the empty case).\<close>

fun py_max :: "int list \<Rightarrow> int" where
  "py_max [] = 0"
| "py_max [x] = x"
| "py_max (x # y # ys) = max x (py_max (y # ys))"

section \<open>manager/utils.py\<close>

text \<open>
  \<^verbatim>\<open>
  def ensure_prefixes_on_list_of_names(names, prefix):
      n_chars = len(prefix)
      return [
          prefix + name if name[:n_chars] != prefix else name for name in names
      ]
  \<close>
\<close>

definition ensure_prefixes_on_list_of_names :: "string list \<Rightarrow> string \<Rightarrow> string list" where
  "ensure_prefixes_on_list_of_names names prefix =
     (let n_chars = length prefix
      in map (\<lambda>name. if take n_chars name \<noteq> prefix then prefix @ name else name) names)"

text \<open>
  \<^verbatim>\<open>raise_error(message)\<close> raises \<^verbatim>\<open>BaseException(message)\<close>.

  The argument of \<^verbatim>\<open>process_names\<close> is any Python value: a string, a list whose
  elements are strings or something else, or a value of another type.
\<close>

datatype py_elem = PyStr string | PyOther

datatype names_arg = NamesStr string | NamesList "py_elem list" | NamesOther

definition is_str :: "py_elem \<Rightarrow> bool" where
  "is_str e = (case e of PyStr _ \<Rightarrow> True | PyOther \<Rightarrow> False)"

definition the_str :: "py_elem \<Rightarrow> string" where
  "the_str e = (case e of PyStr s \<Rightarrow> s | PyOther \<Rightarrow> [])"

definition process_names :: "names_arg \<Rightarrow> string \<Rightarrow> py_error + string list" where
  "process_names names prefix =
     (case names of
        NamesOther \<Rightarrow>
          Inl (BaseException ''Ensure subject and session names are list of strings, or string'')
      | NamesList elems \<Rightarrow>
          if list_ex (\<lambda>ele. \<not> is_str ele) elems
          then Inl (BaseException ''Ensure subject and session names are list of strings, or string'')
          else (let prefixed_names = ensure_prefixes_on_list_of_names (map the_str elems) prefix
                in if length prefixed_names \<noteq> length (remdups prefixed_names)
                   then Inl (BaseException
                     ''Subject and session names but all be unqiue (i.e. there are no duplicates in list input)'')
                   else Inr prefixed_names)
      | NamesStr s \<Rightarrow>
          (let prefixed_names = ensure_prefixes_on_list_of_names [s] prefix
           in if length prefixed_names \<noteq> length (remdups prefixed_names)
              then Inl (BaseException
                ''Subject and session names but all be unqiue (i.e. there are no duplicates in list input)'')
              else Inr prefixed_names))"

section \<open>datashuttle/utils/getters.py\<close>

text \<open>
  \<open>getters.py\<close> calls two modules of the repository whose files are not part of the
  verified sources: \<^verbatim>\<open>folders\<close> (the search of the local and the central project for
  folder names) and \<^verbatim>\<open>utils\<close>. The functions it calls are parameters of the model,
  collected in one record per module, so that what is proved about \<open>getters.py\<close> holds
  for whatever these functions do. Each may raise.

  \<^item> \<^verbatim>\<open>folders.search_project_for_sub_or_ses_names(cfg, sub, search_str, local_only)\<close>
    returns the dictionary \<^verbatim>\<open>{"local": [...], "central": [...]}\<close>;
  \<^item> \<^verbatim>\<open>utils.get_values_from_bids_formatted_name(all_folders, prefix, return_as_int=False)\<close>
    returns the list of value strings (\<open>getters.py\<close> always passes
    \<^verbatim>\<open>return_as_int=False\<close>);
  \<^item> \<^verbatim>\<open>utils.sub_or_ses_value_to_int(value)\<close> returns an integer;
  \<^item> \<^verbatim>\<open>utils.integers_are_consecutive(all_value_nums)\<close> returns a boolean.
\<close>

record folder_names =
  local :: "string list"
  central :: "string list"

record 'cfg folders_module =
  search_project_for_sub_or_ses_names ::
    "'cfg \<Rightarrow> string option \<Rightarrow> string \<Rightarrow> bool \<Rightarrow> py_error + folder_names"

record utils_module =
  get_values_from_bids_formatted_name :: "string list \<Rightarrow> string \<Rightarrow> py_error + string list"
  sub_or_ses_value_to_int :: "string \<Rightarrow> py_error + int"
  integers_are_consecutive :: "int list \<Rightarrow> bool"

text \<open>\<^verbatim>\<open>warnings.warn(...)\<close> does not change the control flow: the warnings a call
  emits are returned beside its value.\<close>

datatype py_warning = SkippedNumberWarning "int list"

text \<open>A list comprehension over a function that may raise stops at the first exception.\<close>

fun map_raising :: "('a \<Rightarrow> py_error + 'b) \<Rightarrow> 'a list \<Rightarrow> py_error + 'b list" where
  "map_raising f [] = Inr []"
| "map_raising f (x # xs) =
     (case f x of
        Inl e \<Rightarrow> Inl e
      | Inr y \<Rightarrow> (case map_raising f xs of Inl e \<Rightarrow> Inl e | Inr ys \<Rightarrow> Inr (y # ys)))"

text \<open>
  \<^verbatim>\<open>
  def get_max_sub_or_ses_num_and_value_length(all_folders, prefix, default_num_value_digits=None):
      if len(all_folders) == 0:
          max_existing_num = 0
          assert isinstance(default_num_value_digits, int), "`default_num_value_digits` must be int`"
          num_value_digits = default_num_value_digits
      else:
          all_values_str = utils.get_values_from_bids_formatted_name(
              all_folders, prefix, return_as_int=False)
          all_num_value_digits = [len(value) for value in all_values_str]
          if len(set(all_num_value_digits)) != 1:
              utils.raise_error(
                  f"The number of value digits for the {prefix} level are not "
                  f"consistent. Cannot suggest a {prefix} number.",
                  NeuroBlueprintError)
          num_value_digits = all_num_value_digits[0]
          all_value_nums = sorted(
              [utils.sub_or_ses_value_to_int(value) for value in all_values_str])
          if not utils.integers_are_consecutive(all_value_nums):
              warnings.warn(
                  f"A subject number has been skipped, "
                  f"currently used subject numbers are: {all_value_nums}")
          max_existing_num = max(all_value_nums)
      return max_existing_num, num_value_digits
  \<close>
\<close>

definition inconsistent_digits_message :: "string \<Rightarrow> string" where
  "inconsistent_digits_message prefix =
     ''The number of value digits for the '' @ prefix @ '' level are not '' @
     ''consistent. Cannot suggest a '' @ prefix @ '' number.''"

definition get_max_sub_or_ses_num_and_value_length ::
  "utils_module \<Rightarrow> string list \<Rightarrow> string \<Rightarrow> int option
     \<Rightarrow> py_error + (py_warning list \<times> int \<times> int)" where
  "get_max_sub_or_ses_num_and_value_length U all_folders prefix default_num_value_digits =
     (if length all_folders = 0 then
        (case default_num_value_digits of
           None \<Rightarrow> Inl (AssertionError ''`default_num_value_digits` must be int`'')
         | Some num_value_digits \<Rightarrow> Inr ([], 0, num_value_digits))
      else
        (case get_values_from_bids_formatted_name U all_folders prefix of
           Inl e \<Rightarrow> Inl e
         | Inr all_values_str \<Rightarrow>
             (let all_num_value_digits = map length all_values_str
              in if length (remdups all_num_value_digits) \<noteq> 1
                 then Inl (NeuroBlueprintError (inconsistent_digits_message prefix))
                 else
                   (let num_value_digits = int (all_num_value_digits ! 0)
                    in (case map_raising (sub_or_ses_value_to_int U) all_values_str of
                          Inl e \<Rightarrow> Inl e
                        | Inr value_nums \<Rightarrow>
                            (let all_value_nums = sort value_nums;
                                 warned = (if \<not> integers_are_consecutive U all_value_nums
                                           then [SkippedNumberWarning all_value_nums] else []);
                                 max_existing_num = py_max all_value_nums
                             in Inr (warned, max_existing_num, num_value_digits)))))))"

text \<open>
  \<^verbatim>\<open>
  def get_next_sub_or_ses_number(cfg, sub, search_str, local_only=False,
                                 return_with_prefix=True, default_num_value_digits=3):
      if sub:
          prefix = "ses"
      else:
          prefix = "sub"
      folder_names = folders.search_project_for_sub_or_ses_names(
          cfg, sub, search_str, local_only=local_only)
      all_folders = list(set(folder_names["local"] + folder_names["central"]))
      (max_existing_num, num_value_digits) = get_max_sub_or_ses_num_and_value_length(
          all_folders, prefix, default_num_value_digits)
      suggested_new_num = max_existing_num + 1
      format_suggested_new_num = str(suggested_new_num).zfill(num_value_digits)
      if return_with_prefix:
          format_suggested_new_num = f"{prefix}-{format_suggested_new_num}"
      return format_suggested_new_num
  \<close>
  \<open>sub\<close> is \<^verbatim>\<open>Optional[str]\<close>; \<^verbatim>\<open>if sub\<close> is false for \<^verbatim>\<open>None\<close> and for the empty
  string. \<^verbatim>\<open>list(set(...))\<close> keeps one copy of every name, in an order Python does not
  fix; the model keeps the order of \<open>remdups\<close>.
\<close>

definition truthy :: "string option \<Rightarrow> bool" where
  "truthy sub = (case sub of None \<Rightarrow> False | Some s \<Rightarrow> s \<noteq> [])"

definition get_next_sub_or_ses_number ::
  "'cfg folders_module \<Rightarrow> utils_module \<Rightarrow> 'cfg \<Rightarrow> string option \<Rightarrow> string \<Rightarrow> bool \<Rightarrow> bool \<Rightarrow> int
     \<Rightarrow> py_error + (py_warning list \<times> string)" where
  "get_next_sub_or_ses_number F U cfg sub search_str local_only return_with_prefix
       default_num_value_digits =
     (let prefix = (if truthy sub then ''ses'' else ''sub'')
      in (case search_project_for_sub_or_ses_names F cfg sub search_str local_only of
            Inl e \<Rightarrow> Inl e
          | Inr folder_names \<Rightarrow>
              (let all_folders = remdups (local folder_names @ central folder_names)
               in (case get_max_sub_or_ses_num_and_value_length U all_folders prefix
                          (Some default_num_value_digits) of
                     Inl e \<Rightarrow> Inl e
                   | Inr (warned, max_existing_num, num_value_digits) \<Rightarrow>
                       (let suggested_new_num = max_existing_num + 1;
                            format_suggested_new_num =
                              zfill (str_int suggested_new_num) num_value_digits
                        in Inr (warned,
                                if return_with_prefix
                                then prefix @ ''-'' @ format_suggested_new_num
                                else format_suggested_new_num))))))"

section \<open>datashuttle/utils/utils.py and the validation issues\<close>

text \<open>
  The issues of section 3 of the specification (\<open>ValidationIssue\<close>), each with the data
  its message carries: the rejected value; the prefix, the new name and the existing
  name; the prefix; the rejected name and the template. The messages are the ones the
  tests under \<open>src/tests\<close> compare with.
\<close>

datatype validation_issue =
    InvalidCharacter string
  | DuplicateId string string string
  | InconsistentPadding string
  | TemplateMismatch string string

fun issue_message :: "validation_issue \<Rightarrow> string" where
  "issue_message (InvalidCharacter v) =
     ''Invalid character in subject or session value: '' @ v"
| "issue_message (DuplicateId prefix new_name exist_name) =
     ''A '' @ prefix @ '' already exists with the same '' @ prefix @ '' id as '' @ new_name @
     ''. The existing folder is '' @ exist_name @ ''.''"
| "issue_message (InconsistentPadding prefix) =
     ''Inconsistent value lengths for the key '' @ prefix @ '' were found. '' @
     ''Ensure the number of digits for the '' @ prefix @ '' value are the '' @
     ''same and prefixed with leading zeros if required.''"
| "issue_message (TemplateMismatch name template) =
     ''The name: '' @ name @ '' does not match the template: '' @ template"

definition raise_issue :: "validation_issue \<Rightarrow> py_error" where
  "raise_issue issue = NeuroBlueprintError (issue_message issue)"

definition is_digit :: "char \<Rightarrow> bool" where
  "is_digit c = (48 \<le> (of_char c :: nat) \<and> (of_char c :: nat) \<le> 57)"

definition digit_value :: "char \<Rightarrow> nat" where
  "digit_value c = of_char c - 48"

definition nat_of_digits :: "string \<Rightarrow> nat" where
  "nat_of_digits s = foldl (\<lambda>acc c. 10 * acc + digit_value c) 0 s"

text \<open>
  Modelled from the spec: \<^verbatim>\<open>utils.sub_or_ses_value_to_int\<close> is not under \<open>src/\<close>
  (\<open>getters.py\<close> calls it on every value string and takes the maximum of the
  results). The primary numeric value is "the digit run following the prefix" (4.4);
  a value that is not a digit run is rejected with \<open>InvalidCharacter\<close>, whose message
  carries the value (\<open>test_invalid_sub_and_ses_name\<close>: "Invalid character in subject or
  session value: sub").
\<close>

definition sub_or_ses_value_to_int_model :: "string \<Rightarrow> validation_issue + int" where
  "sub_or_ses_value_to_int_model v =
     (if v \<noteq> [] \<and> list_all is_digit v then Inr (int (nat_of_digits v))
      else Inl (InvalidCharacter v))"

text \<open>
  Modelled from the spec: \<^verbatim>\<open>utils.get_values_from_bids_formatted_name\<close> is not under
  \<open>src/\<close>. Section 4.2: a name is split on \<open>_\<close> into components and each component on
  its first \<open>-\<close> into key and value; the glossary: the primary value is "the value
  component immediately following the subject/session prefix". The parse fails with
  \<open>InvalidCharacter\<close> when the first component has no \<open>-\<close> or its key is not the
  expected prefix.
\<close>

definition split_key_value :: "string \<Rightarrow> (string \<times> string) option" where
  "split_key_value component =
     (if CHR ''-'' \<in> set component
      then Some (takeWhile (\<lambda>c. c \<noteq> CHR ''-'') component,
                 tl (dropWhile (\<lambda>c. c \<noteq> CHR ''-'') component))
      else None)"

definition get_value_from_key_model :: "string \<Rightarrow> string \<Rightarrow> validation_issue + string" where
  "get_value_from_key_model name prefix =
     (case split_key_value (takeWhile (\<lambda>c. c \<noteq> CHR ''_'') name) of
        None \<Rightarrow> Inl (InvalidCharacter name)
      | Some (key, v) \<Rightarrow> if key = prefix then Inr v else Inl (InvalidCharacter name))"

text \<open>
  Modelled from the spec: \<^verbatim>\<open>utils.integers_are_consecutive\<close> is not under \<open>src/\<close>.
  Section 4.5: the notice is for an "existing numeric sequence [that] has gaps
  (non-consecutive)"; the argument is sorted.
\<close>

fun integers_are_consecutive_model :: "int list \<Rightarrow> bool" where
  "integers_are_consecutive_model [] = True"
| "integers_are_consecutive_model [x] = True"
| "integers_are_consecutive_model (x # y # ys) =
     (y = x + 1 \<and> integers_are_consecutive_model (y # ys))"

fun raising :: "validation_issue + 'a \<Rightarrow> py_error + 'a" where
  "raising (Inl issue) = Inl (raise_issue issue)"
| "raising (Inr x) = Inr x"

definition utils_model :: utils_module where
  "utils_model =
     \<lparr> get_values_from_bids_formatted_name =
         (\<lambda>all_names key. map_raising (\<lambda>name. raising (get_value_from_key_model name key)) all_names),
       sub_or_ses_value_to_int = (\<lambda>v. raising (sub_or_ses_value_to_int_model v)),
       integers_are_consecutive = integers_are_consecutive_model \<rparr>"

text \<open>A project on disk, for running the functions: the folder names a search returns, at
  the top level (\<open>sub = None\<close>) and inside each subject.\<close>

definition folders_of :: "folder_names \<Rightarrow> (string \<Rightarrow> folder_names) \<Rightarrow> unit folders_module" where
  "folders_of subjects sessions =
     \<lparr> search_project_for_sub_or_ses_names =
         (\<lambda>cfg sub search_str local_only.
            (let found = (case sub of None \<Rightarrow> subjects | Some s \<Rightarrow> sessions s)
             in Inr (if local_only then found\<lparr>central := []\<rparr> else found))) \<rparr>"

section \<open>datashuttle/utils/getters.py: the existing names of a project\<close>

text \<open>
  \<^verbatim>\<open>
  def get_all_sub_and_ses_names(cfg, local_only):
      sub_folder_names = folders.search_project_for_sub_or_ses_names(
          cfg, None, "sub-*", local_only)
      if local_only:
          all_sub_folder_names = sub_folder_names["local"]
      else:
          all_sub_folder_names = (
              sub_folder_names["local"] + sub_folder_names["central"])
      all_ses_folder_names = {}
      for sub in all_sub_folder_names:
          ses_folder_names = folders.search_project_for_sub_or_ses_names(
              cfg, sub, "ses-*", local_only)
          if local_only:
              all_ses_folder_names[sub] = ses_folder_names["local"]
          else:
              all_ses_folder_names[sub] = (
                  ses_folder_names["local"] + ses_folder_names["central"])
      return {"sub": all_sub_folder_names, "ses": all_ses_folder_names}
  \<close>
  The dictionary of the sessions is a map from the subject name to the list of its session
  names; local names come before central names in every list.
\<close>

definition local_or_all :: "bool \<Rightarrow> folder_names \<Rightarrow> string list" where
  "local_or_all local_only found =
     (if local_only then local found else local found @ central found)"

fun all_ses_folder_names ::
  "'cfg folders_module \<Rightarrow> 'cfg \<Rightarrow> bool \<Rightarrow> string list \<Rightarrow> (string \<rightharpoonup> string list)
     \<Rightarrow> py_error + (string \<rightharpoonup> string list)" where
  "all_ses_folder_names F cfg local_only [] acc = Inr acc"
| "all_ses_folder_names F cfg local_only (sub # subs) acc =
     (case search_project_for_sub_or_ses_names F cfg (Some sub) ''ses-*'' local_only of
        Inl e \<Rightarrow> Inl e
      | Inr ses_folder_names \<Rightarrow>
          all_ses_folder_names F cfg local_only subs
            (acc(sub \<mapsto> local_or_all local_only ses_folder_names)))"

definition get_all_sub_and_ses_names ::
  "'cfg folders_module \<Rightarrow> 'cfg \<Rightarrow> bool \<Rightarrow> py_error + (string list \<times> (string \<rightharpoonup> string list))" where
  "get_all_sub_and_ses_names F cfg local_only =
     (case search_project_for_sub_or_ses_names F cfg None ''sub-*'' local_only of
        Inl e \<Rightarrow> Inl e
      | Inr sub_folder_names \<Rightarrow>
          (let all_sub_folder_names = local_or_all local_only sub_folder_names
           in (case all_ses_folder_names F cfg local_only all_sub_folder_names Map.empty of
                 Inl e \<Rightarrow> Inl e
               | Inr ses \<Rightarrow> Inr (all_sub_folder_names, ses))))"

section \<open>datashuttle/configs/canonical_configs.py\<close>

text \<open>
  \<^verbatim>\<open>
  def get_name_templates_defaults() -> Dict:
      return {"name_templates": {"on": False, "sub": None, "ses": None}}
  \<close>
  The fields of the dictionary \<^verbatim>\<open>name_templates\<close> are \<open>on\<close>, \<open>sub\<close> and \<open>ses\<close>; the
  record writes them \<open>template_on\<close>, \<open>template_sub\<close> and \<open>template_ses\<close>.
\<close>

record name_templates =
  template_on :: bool
  template_sub :: "string option"
  template_ses :: "string option"

definition get_name_templates_defaults :: name_templates where
  "get_name_templates_defaults =
     \<lparr> template_on = False, template_sub = None, template_ses = None \<rparr>"

section \<open>The name parser (specification 4.2)\<close>

text \<open>\<^verbatim>\<open>s.split(c)\<close> for a separator of one character.\<close>

fun split_on :: "char \<Rightarrow> string \<Rightarrow> string list" where
  "split_on c [] = [[]]"
| "split_on c (x # xs) =
     (if x = c then [] # split_on c xs
      else (case split_on c xs of
              [] \<Rightarrow> [[x]]
            | w # ws \<Rightarrow> (x # w) # ws))"

definition is_space :: "char \<Rightarrow> bool" where
  "is_space c = (c \<in> set [CHR '' '', CHR 0x09, CHR 0x0A, CHR 0x0B, CHR 0x0C, CHR 0x0D])"

definition key_allowed :: "string \<Rightarrow> bool" where
  "key_allowed key = (key \<noteq> [] \<and> \<not> list_ex is_space key)"

text \<open>
  Modelled from the spec: the Name Parser is not under \<open>src/\<close>. Section 4.2: the name is
  split on \<open>_\<close> into components and each component on its first \<open>-\<close> into key and value;
  the parse fails with \<open>InvalidCharacter\<close> when a component has no \<open>-\<close>, when the first
  key is not the expected prefix, when a key has a disallowed character, and when the
  primary value is the prefix literal itself (the \<open>sub-sub\<close> form of a malformed
  \<open>sub_100\<close>). Section 3: keys are not empty and hold no whitespace, and a key that occurs
  twice is rejected. The first component is looked at first; the issue carries the
  offending value when the primary value is the prefix (\<open>test_invalid_sub_and_ses_name\<close>:
  "Invalid character in subject or session value: sub"), the name otherwise.
\<close>

definition parse_name :: "string \<Rightarrow> string \<Rightarrow> validation_issue + (string \<times> string) list" where
  "parse_name name prefix =
     (let components = split_on CHR ''_'' name
      in (case split_key_value (hd components) of
            None \<Rightarrow> Inl (InvalidCharacter name)
          | Some (key, v) \<Rightarrow>
              if key \<noteq> prefix then Inl (InvalidCharacter name)
              else if v = prefix then Inl (InvalidCharacter v)
              else if list_ex (\<lambda>c. split_key_value c = None) components
                then Inl (InvalidCharacter name)
              else (let pairs = map (\<lambda>c. the (split_key_value c)) components
                    in if list_ex (\<lambda>kv. \<not> key_allowed (fst kv)) pairs
                          \<or> \<not> distinct (map fst pairs)
                       then Inl (InvalidCharacter name)
                       else Inr pairs)))"

section \<open>The template matcher and the consistency checker (specification 4.3, 4.4)\<close>

text \<open>
  The caller chooses between raising the first issue and warning about every issue
  (\<^verbatim>\<open>error_or_warn="error"\<close> or \<^verbatim>\<open>"warn"\<close> in the tests). A report is what one
  validation call has done: the warnings it has emitted, in order, and the issue it has
  raised, if any. After an issue is raised nothing more is checked.
\<close>

datatype error_or_warn = ErrorMode | WarnMode

type_synonym report = "validation_issue list \<times> validation_issue option"

definition no_issue :: report where
  "no_issue = ([], None)"

definition raise_error_or_warn :: "validation_issue \<Rightarrow> error_or_warn \<Rightarrow> report" where
  "raise_error_or_warn issue mode =
     (case mode of ErrorMode \<Rightarrow> ([], Some issue) | WarnMode \<Rightarrow> ([issue], None))"

text \<open>A name that cannot be parsed is fatal in both modes (section 7).\<close>

definition fatal :: "validation_issue \<Rightarrow> report" where
  "fatal issue = ([], Some issue)"

definition and_then :: "report \<Rightarrow> report \<Rightarrow> report" where
  "and_then first second =
     (case snd first of
        Some raised \<Rightarrow> first
      | None \<Rightarrow> (fst first @ fst second, snd second))"

fun check_all :: "('a \<Rightarrow> report) \<Rightarrow> 'a list \<Rightarrow> report" where
  "check_all check [] = no_issue"
| "check_all check (x # xs) = and_then (check x) (check_all check xs)"

text \<open>
  Modelled from the spec: the Template Matcher is not under \<open>src/\<close>. Section 4.3: when
  \<open>on\<close> is true and a template is set for the prefix, the raw name is matched against the
  regular expression, and a name that does not match is a \<open>TemplateMismatch\<close> with the
  name and the template; when \<open>on\<close> is false the stage is skipped. The regular expression
  engine is Python's \<^verbatim>\<open>re\<close> module: \<open>re_match template name\<close> is a parameter.
\<close>

definition template_for :: "name_templates \<Rightarrow> string \<Rightarrow> string option" where
  "template_for templates prefix =
     (if prefix = ''sub'' then template_sub templates else template_ses templates)"

definition name_matches_template ::
  "(string \<Rightarrow> string \<Rightarrow> bool) \<Rightarrow> name_templates \<Rightarrow> string \<Rightarrow> error_or_warn \<Rightarrow> string \<Rightarrow> report" where
  "name_matches_template re_match templates prefix mode name =
     (if template_on templates then
        (case template_for templates prefix of
           None \<Rightarrow> no_issue
         | Some template \<Rightarrow>
             if re_match template name then no_issue
             else raise_error_or_warn (TemplateMismatch name template) mode)
      else no_issue)"

text \<open>
  Modelled from the spec: the check of the zero padding is not under \<open>src/\<close>. Section
  4.4(b): the primary numeric value strings of all existing and candidate names of one
  level are collected; values that are not numeric are left out; when the lengths of the
  strings are not all equal, \<open>InconsistentPadding\<close> names the prefix.
\<close>

fun values_of_names :: "string list \<Rightarrow> string \<Rightarrow> validation_issue + string list" where
  "values_of_names [] prefix = Inr []"
| "values_of_names (name # names) prefix =
     (case get_value_from_key_model name prefix of
        Inl issue \<Rightarrow> Inl issue
      | Inr v \<Rightarrow> (case values_of_names names prefix of
                    Inl issue \<Rightarrow> Inl issue
                  | Inr vs \<Rightarrow> Inr (v # vs)))"

definition is_numeric :: "string \<Rightarrow> bool" where
  "is_numeric v = (v \<noteq> [] \<and> list_all is_digit v)"

definition value_lengths_are_inconsistent :: "string \<Rightarrow> error_or_warn \<Rightarrow> string list \<Rightarrow> report" where
  "value_lengths_are_inconsistent prefix mode names =
     (case values_of_names names prefix of
        Inl issue \<Rightarrow> fatal issue
      | Inr vals \<Rightarrow>
          if 1 < length (remdups (map length (filter is_numeric vals)))
          then raise_error_or_warn (InconsistentPadding prefix) mode
          else no_issue)"

text \<open>
  Modelled from the spec: the duplicate check is not under \<open>src/\<close>. Section 4.4(a): two
  names of the same level with the same primary value that are not the same string are a
  \<open>DuplicateId\<close>, reported with both names; the same string is no conflict. Two numeric
  values are the same when they are the same number
  (\<open>test_validate_names_against_project\<close>: \<open>sub-002\<close> conflicts with the existing
  \<open>sub-2_id-b\<close>); other values are compared as strings. One name is compared with a list
  of other names, in the order of the list; the message calls the one name new and the
  other the existing folder.
\<close>

definition same_primary_value :: "string \<Rightarrow> string \<Rightarrow> bool" where
  "same_primary_value v v' =
     (if is_numeric v \<and> is_numeric v' then nat_of_digits v = nat_of_digits v' else v = v')"

definition new_name_duplicates_existing ::
  "string \<Rightarrow> error_or_warn \<Rightarrow> string list \<Rightarrow> string \<Rightarrow> report" where
  "new_name_duplicates_existing prefix mode other_names new_name =
     (case get_value_from_key_model new_name prefix of
        Inl issue \<Rightarrow> fatal issue
      | Inr new_value \<Rightarrow>
          check_all
            (\<lambda>exist_name.
               (case get_value_from_key_model exist_name prefix of
                  Inl issue \<Rightarrow> fatal issue
                | Inr exist_value \<Rightarrow>
                    if same_primary_value new_value exist_value \<and> new_name \<noteq> exist_name
                    then raise_error_or_warn (DuplicateId prefix new_name exist_name) mode
                    else no_issue))
            other_names)"

text \<open>
  Modelled from the spec: the Consistency Checker of one level is not under \<open>src/\<close>.
  Section 4.4: both checks run over the existing names and the candidate names of the
  level; the pairs of the duplicate check are existing with existing, candidate with
  existing and candidate with candidate of the same batch, taken in this order. The check
  of the value lengths comes before the duplicate check: the tests under
  \<open>src/tests/tests_integration/test_validation.py\<close> expect the warning about the value
  lengths first (\<open>w[0]\<close> in \<open>test_validate_names_against_project\<close> and
  \<open>test_validate_project\<close>), and with the existing \<open>sub-1\<close> the candidate \<open>sub-001\<close> is
  refused for its value length (\<open>test_duplicate_sub_and_ses_num_leading_zeros\<close>).
\<close>

definition validate_level ::
  "string \<Rightarrow> error_or_warn \<Rightarrow> string list \<Rightarrow> string list \<Rightarrow> report" where
  "validate_level prefix mode existing_names new_names =
     and_then (value_lengths_are_inconsistent prefix mode (existing_names @ new_names))
       (and_then (check_all (new_name_duplicates_existing prefix mode existing_names) existing_names)
          (and_then (check_all (new_name_duplicates_existing prefix mode existing_names) new_names)
             (check_all (new_name_duplicates_existing prefix mode new_names) new_names)))"

text \<open>
  Modelled from the spec: \<^verbatim>\<open>validation.validate_names_against_project\<close> is not under
  \<open>src/\<close>; the tests call it with the candidate subject names, the candidate session
  names or \<^verbatim>\<open>None\<close>, \<^verbatim>\<open>local_only\<close>, \<^verbatim>\<open>error_or_warn\<close> and the name
  templates. The existing names are those of \<open>get_all_sub_and_ses_names\<close>. Section 2: the
  candidate names go through the Template Matcher and then through the Consistency
  Checker. The Template Matcher takes the subject names, then the session names. The
  Consistency Checker takes the subject level, then the session level inside every
  candidate subject (section 4.4: subjects before sessions, sessions compared "within the
  same subject's namespace"; \<open>test_validate_names_against_project\<close>: the session warnings
  come subject by subject).
\<close>

definition sessions_of :: "(string \<rightharpoonup> string list) \<Rightarrow> string \<Rightarrow> string list" where
  "sessions_of ses sub = (case ses sub of None \<Rightarrow> [] | Some names \<Rightarrow> names)"

definition match_templates ::
  "(string \<Rightarrow> string \<Rightarrow> bool) \<Rightarrow> name_templates \<Rightarrow> error_or_warn
     \<Rightarrow> string list \<Rightarrow> string list option \<Rightarrow> report" where
  "match_templates re_match templates mode sub_names ses_names =
     and_then (check_all (name_matches_template re_match templates ''sub'' mode) sub_names)
       (case ses_names of
          None \<Rightarrow> no_issue
        | Some new_ses_names \<Rightarrow>
            check_all (name_matches_template re_match templates ''ses'' mode) new_ses_names)"

definition check_consistency ::
  "error_or_warn \<Rightarrow> string list \<Rightarrow> (string \<rightharpoonup> string list) \<Rightarrow> string list
     \<Rightarrow> string list option \<Rightarrow> report" where
  "check_consistency mode existing_subs existing_ses sub_names ses_names =
     and_then (validate_level ''sub'' mode existing_subs sub_names)
       (case ses_names of
          None \<Rightarrow> no_issue
        | Some new_ses_names \<Rightarrow>
            check_all
              (\<lambda>new_sub. validate_level ''ses'' mode (sessions_of existing_ses new_sub)
                            new_ses_names)
              sub_names)"

definition validate_names_against_project ::
  "'cfg folders_module \<Rightarrow> (string \<Rightarrow> string \<Rightarrow> bool) \<Rightarrow> 'cfg \<Rightarrow> string list \<Rightarrow> string list option
     \<Rightarrow> bool \<Rightarrow> error_or_warn \<Rightarrow> name_templates \<Rightarrow> py_error + report" where
  "validate_names_against_project F re_match cfg sub_names ses_names local_only mode templates =
     (case get_all_sub_and_ses_names F cfg local_only of
        Inl e \<Rightarrow> Inl e
      | Inr (existing_subs, existing_ses) \<Rightarrow>
          Inr (and_then
                (match_templates re_match templates mode sub_names ses_names)
                (check_consistency mode existing_subs existing_ses sub_names ses_names)))"

section \<open>The issues of a scan, in its order\<close>

text \<open>
  What a validation call is expected to report is written down apart from the checks that
  run, as plain lists: the theorems below compare the two. \<open>names_clash\<close> is the conflict of
  section 4.4(a), \<open>value_lengths_differ\<close> the inconsistency of section 4.4(b). A name has a
  value when its first component is the prefix, a \<open>-\<close> and a value.
\<close>

definition first_issue :: "report \<Rightarrow> validation_issue option" where
  "first_issue r = (case fst r of issue # _ \<Rightarrow> Some issue | [] \<Rightarrow> snd r)"

definition names_clash :: "string \<Rightarrow> string \<Rightarrow> string \<Rightarrow> bool" where
  "names_clash prefix name other =
     (case get_value_from_key_model name prefix of
        Inl issue \<Rightarrow> False
      | Inr v \<Rightarrow>
          (case get_value_from_key_model other prefix of
             Inl issue \<Rightarrow> False
           | Inr v' \<Rightarrow> same_primary_value v v' \<and> name \<noteq> other))"

definition value_lengths_differ :: "string \<Rightarrow> string list \<Rightarrow> bool" where
  "value_lengths_differ prefix names =
     (case values_of_names names prefix of
        Inl issue \<Rightarrow> False
      | Inr vals \<Rightarrow> 1 < length (remdups (map length (filter is_numeric vals))))"

definition has_value :: "string \<Rightarrow> string \<Rightarrow> bool" where
  "has_value prefix name =
     (case get_value_from_key_model name prefix of Inl issue \<Rightarrow> False | Inr v \<Rightarrow> True)"

definition names_have_values ::
  "string list \<Rightarrow> (string \<Rightarrow> string list) \<Rightarrow> string list \<Rightarrow> string list option \<Rightarrow> bool" where
  "names_have_values existing_subs existing_ses sub_names ses_names =
     (list_all (has_value ''sub'') (existing_subs @ sub_names)
      \<and> (case ses_names of
           None \<Rightarrow> True
         | Some new_ses_names \<Rightarrow>
             list_all (\<lambda>new_sub. list_all (has_value ''ses'') (existing_ses new_sub @ new_ses_names))
               sub_names))"

definition template_issues ::
  "(string \<Rightarrow> string \<Rightarrow> bool) \<Rightarrow> name_templates \<Rightarrow> string \<Rightarrow> string list \<Rightarrow> validation_issue list" where
  "template_issues re_match templates prefix names =
     (if template_on templates then
        (case template_for templates prefix of
           None \<Rightarrow> []
         | Some template \<Rightarrow>
             [TemplateMismatch name template. name \<leftarrow> names, \<not> re_match template name])
      else [])"

definition duplicate_issues :: "string \<Rightarrow> string list \<Rightarrow> string list \<Rightarrow> validation_issue list" where
  "duplicate_issues prefix names others =
     [DuplicateId prefix name other. name \<leftarrow> names, other \<leftarrow> others, names_clash prefix name other]"

definition level_issues :: "string \<Rightarrow> string list \<Rightarrow> string list \<Rightarrow> validation_issue list" where
  "level_issues prefix existing_names new_names =
     (if value_lengths_differ prefix (existing_names @ new_names)
      then [InconsistentPadding prefix] else [])
     @ duplicate_issues prefix existing_names existing_names
     @ duplicate_issues prefix new_names existing_names
     @ duplicate_issues prefix new_names new_names"

definition scan_issues ::
  "(string \<Rightarrow> string \<Rightarrow> bool) \<Rightarrow> name_templates \<Rightarrow> string list \<Rightarrow> (string \<Rightarrow> string list)
     \<Rightarrow> string list \<Rightarrow> string list option \<Rightarrow> validation_issue list" where
  "scan_issues re_match templates existing_subs existing_ses sub_names ses_names =
     template_issues re_match templates ''sub'' sub_names
     @ (case ses_names of
          None \<Rightarrow> []
        | Some new_ses_names \<Rightarrow> template_issues re_match templates ''ses'' new_ses_names)
     @ level_issues ''sub'' existing_subs sub_names
     @ (case ses_names of
          None \<Rightarrow> []
        | Some new_ses_names \<Rightarrow>
            concat (map (\<lambda>new_sub. level_issues ''ses'' (existing_ses new_sub) new_ses_names)
                      sub_names))"

section \<open>Properties of manager/utils.py\<close>

lemma ensure_prefixes_length:
  "length (ensure_prefixes_on_list_of_names names prefix) = length names"
  by (simp add: ensure_prefixes_on_list_of_names_def)

lemma ensure_prefixes_idempotent:
  "ensure_prefixes_on_list_of_names (ensure_prefixes_on_list_of_names names prefix) prefix
     = ensure_prefixes_on_list_of_names names prefix"
  by (simp add: ensure_prefixes_on_list_of_names_def)

lemma length_remdups_differs:
  "(length xs \<noteq> length (remdups xs)) = (\<not> distinct xs)"
  by (metis distinct_remdups_id length_remdups_eq remdups_id_iff_distinct)

lemma process_names_list_of_strings:
  "process_names (NamesList (map PyStr names)) prefix =
     (if distinct (ensure_prefixes_on_list_of_names names prefix)
      then Inr (ensure_prefixes_on_list_of_names names prefix)
      else Inl (BaseException
        ''Subject and session names but all be unqiue (i.e. there are no duplicates in list input)''))"
proof -
  have no_other: "\<not> list_ex (\<lambda>ele. \<not> is_str ele) (map PyStr names)"
    by (simp add: list_ex_iff is_str_def)
  have strs: "map the_str (map PyStr names) = names"
    by (simp add: the_str_def comp_def)
  show ?thesis
    unfolding process_names_def using no_other strs
    by (simp add: Let_def length_remdups_differs)
qed

text \<open>
  Claim C10. For a list of name strings that has no duplicates after prefixing,
  \<open>process_names\<close> returns a list of the same length and order; a name that does not
  start with the prefix string gets it prepended, a name that starts with it is unchanged;
  and \<open>process_names\<close> applied to its own output returns that output.
\<close>

theorem process_names_prefixes_each_name:
  assumes "distinct (ensure_prefixes_on_list_of_names names prefix)"
  shows "\<exists>out. process_names (NamesList (map PyStr names)) prefix = Inr out
           \<and> length out = length names
           \<and> (\<forall>i < length names.
                 out ! i = (if take (length prefix) (names ! i) = prefix
                            then names ! i else prefix @ names ! i))
           \<and> process_names (NamesList (map PyStr out)) prefix = Inr out"
proof -
  let ?out = "ensure_prefixes_on_list_of_names names prefix"
  have first: "process_names (NamesList (map PyStr names)) prefix = Inr ?out"
    using assms by (simp add: process_names_list_of_strings)
  have len: "length ?out = length names"
    by (rule ensure_prefixes_length)
  have each: "\<forall>i < length names.
      ?out ! i = (if take (length prefix) (names ! i) = prefix then names ! i else prefix @ names ! i)"
    by (simp add: ensure_prefixes_on_list_of_names_def)
  have again: "process_names (NamesList (map PyStr ?out)) prefix = Inr ?out"
    using assms by (simp add: process_names_list_of_strings ensure_prefixes_idempotent)
  from first len each again show ?thesis by blast
qed

theorem process_names_prefixes_each_name_witness:
  "distinct (ensure_prefixes_on_list_of_names [''00011'', ''sub-00002'', ''30303''] ''sub-'')
   \<and> process_names (NamesList [PyStr ''00011'', PyStr ''sub-00002'', PyStr ''30303'']) ''sub-''
       = Inr [''sub-00011'', ''sub-00002'', ''sub-30303'']
   \<and> process_names (NamesList [PyStr ''sub-00011'', PyStr ''sub-00002'', PyStr ''sub-30303'']) ''sub-''
       = Inr [''sub-00011'', ''sub-00002'', ''sub-30303'']"
proof -
  have d: "distinct (ensure_prefixes_on_list_of_names [''00011'', ''sub-00002'', ''30303''] ''sub-'')"
    by (simp add: ensure_prefixes_on_list_of_names_def)
  from process_names_prefixes_each_name [OF d]
  obtain out where
    run: "process_names (NamesList (map PyStr [''00011'', ''sub-00002'', ''30303''])) ''sub-'' = Inr out"
    and again: "process_names (NamesList (map PyStr out)) ''sub-'' = Inr out"
    by blast
  have out: "out = [''sub-00011'', ''sub-00002'', ''sub-30303'']"
    using run d unfolding process_names_list_of_strings
    by (simp add: ensure_prefixes_on_list_of_names_def)
  show ?thesis using d run again unfolding out by simp
qed

section \<open>Properties of getters.py\<close>

lemma py_max_Max: "xs \<noteq> [] \<Longrightarrow> py_max xs = Max (set xs)"
  by (induction xs rule: py_max.induct) (auto simp: max_def Max_insert)

lemma py_max_sort: "nums \<noteq> [] \<Longrightarrow> py_max (sort nums) = Max (set nums)"
proof -
  assume "nums \<noteq> []"
  then have "sort nums \<noteq> []" by (metis length_sort length_0_conv)
  then show ?thesis using py_max_Max[of "sort nums"] by simp
qed

lemma map_raising_all_return:
  "map f xs = map Inr ys \<Longrightarrow> map_raising f xs = Inr ys"
  by (induction xs arbitrary: ys) auto

lemma remdups_replicate_same:
  "remdups (replicate n x) = (if n = 0 then [] else [x])"
  by (induction n) auto

lemma length_remdups_one_iff:
  "(length (remdups xs) = 1) = (\<exists>x. set xs = {x})"
  by (simp add: length_remdups_card_conv card_1_singleton_iff)

lemma uniform_lengths_remdups:
  assumes "vals \<noteq> []" and "\<forall>v\<in>set vals. length v = w"
  shows "remdups (map length vals) = [w]"
proof -
  have "map length vals = replicate (length vals) w"
    using assms(2) by (simp add: map_replicate_const[symmetric] cong: map_cong)
  then show ?thesis using assms(1) by (simp add: remdups_replicate_same)
qed

lemma uniform_lengths_first:
  assumes "vals \<noteq> []" and "\<forall>v\<in>set vals. length v = w"
  shows "map length vals ! 0 = w"
  using assms by (cases vals) auto

lemma get_max_uniform:
  assumes folders: "all_folders \<noteq> []"
    and vals: "get_values_from_bids_formatted_name U all_folders prefix = Inr vals"
    and nonempty: "vals \<noteq> []"
    and width: "\<forall>v\<in>set vals. length v = w"
    and nums: "map (sub_or_ses_value_to_int U) vals = map Inr nums"
  shows "get_max_sub_or_ses_num_and_value_length U all_folders prefix dflt =
           Inr (if \<not> integers_are_consecutive U (sort nums)
                then [SkippedNumberWarning (sort nums)] else [],
                Max (set nums), int w)"
proof -
  have n: "nums \<noteq> []" using nums nonempty by auto
  show ?thesis
    unfolding get_max_sub_or_ses_num_and_value_length_def
    using folders vals
    by (simp add: uniform_lengths_remdups[OF nonempty width]
        uniform_lengths_first[OF nonempty width]
        map_raising_all_return[OF nums] py_max_sort[OF n] Let_def)
qed

lemma get_next_value:
  assumes search: "search_project_for_sub_or_ses_names F cfg sub search_str local_only = Inr names"
    and folders: "local names @ central names \<noteq> []"
    and vals: "get_values_from_bids_formatted_name U (remdups (local names @ central names))
                 (if truthy sub then ''ses'' else ''sub'') = Inr vals"
    and nonempty: "vals \<noteq> []"
    and width: "\<forall>v\<in>set vals. length v = w"
    and nums: "map (sub_or_ses_value_to_int U) vals = map Inr nums"
  shows "get_next_sub_or_ses_number F U cfg sub search_str local_only return_with_prefix d =
           Inr (if \<not> integers_are_consecutive U (sort nums)
                then [SkippedNumberWarning (sort nums)] else [],
                (if return_with_prefix then (if truthy sub then ''ses'' else ''sub'') @ ''-'' else [])
                  @ zfill (str_int (Max (set nums) + 1)) (int w))"
proof -
  have ne: "remdups (local names @ central names) \<noteq> []"
    using folders by (metis remdups_eq_nil_iff)
  show ?thesis
    unfolding get_next_sub_or_ses_number_def
    using search
    by (simp add: get_max_uniform[OF ne vals nonempty width nums] Let_def)
qed

lemma length_str_nat_pos: "0 < length (str_nat n)"
  by (induction n rule: str_nat.induct) (subst str_nat.simps, simp)

lemma length_str_nat_le: "0 < w \<Longrightarrow> (length (str_nat n) \<le> w) = (n < 10 ^ w)"
proof (induction n arbitrary: w rule: str_nat.induct)
  case (1 n)
  show ?case
  proof (cases "n < 10")
    case True
    have "(10::nat) ^ 1 \<le> 10 ^ w" using 1(2) by (intro power_increasing) auto
    then have "n < 10 ^ w" using True by simp
    then show ?thesis using True 1(2) by (subst str_nat.simps) simp
  next
    case False
    obtain w' where w': "w = Suc w'" using 1(2) by (cases w) auto
    have len: "length (str_nat n) = Suc (length (str_nat (n div 10)))"
      using False by (subst str_nat.simps) simp
    show ?thesis
    proof (cases "w' = 0")
      case True
      then show ?thesis using False len w' length_str_nat_pos[of "n div 10"] by simp
    next
      case nz: False
      then have "(length (str_nat (n div 10)) \<le> w') = (n div 10 < 10 ^ w')"
        using 1(1)[OF False] by simp
      moreover have "(n div 10 < 10 ^ w') = (n < 10 ^ Suc w')"
        by (simp add: less_mult_imp_div_less div_less_iff_less_mult mult.commute)
      ultimately show ?thesis using len w' by simp
    qed
  qed
qed

lemma digit_char_not_sign:
  "d < 10 \<Longrightarrow> digit_char d \<noteq> CHR ''+'' \<and> digit_char d \<noteq> CHR ''-''"
proof -
  assume d: "d < 10"
  then have "d \<in> {0, 1, 2, 3, 4, 5, 6, 7, 8, 9}" by auto
  then show ?thesis by (auto simp: digit_char_def)
qed

lemma str_nat_first: "\<exists>d cs. d < 10 \<and> str_nat n = digit_char d # cs"
proof (induction n rule: str_nat.induct)
  case (1 n)
  show ?case
  proof (cases "n < 10")
    case True
    then show ?thesis by (subst str_nat.simps) auto
  next
    case False
    from 1[OF False] obtain d cs where "d < 10" "str_nat (n div 10) = digit_char d # cs" by blast
    then show ?thesis using False by (subst str_nat.simps) auto
  qed
qed

lemma zfill_long: "width \<le> int (length s) \<Longrightarrow> zfill s width = s"
  by (simp add: zfill_def)

lemma zfill_str_nat:
  "zfill (str_nat n) width = replicate (nat (width - int (length (str_nat n)))) CHR ''0'' @ str_nat n"
proof -
  obtain d cs where d: "d < 10" and s: "str_nat n = digit_char d # cs"
    using str_nat_first by blast
  show ?thesis
    using digit_char_not_sign[OF d] by (simp add: zfill_def s Let_def)
qed

lemma zfill_str_int:
  "0 \<le> i \<Longrightarrow>
     zfill (str_int i) width = replicate (nat (width - int (length (str_int i)))) CHR ''0'' @ str_int i"
  by (simp add: str_int_def zfill_str_nat)

lemma str_int_longer:
  assumes "(10::int) ^ w \<le> i"
  shows "w < length (str_int i)"
proof -
  have "(0::int) < 10 ^ w" by simp
  then have pos: "0 < i" using assms by linarith
  have s: "str_int i = str_nat (nat i)" using pos by (simp add: str_int_def)
  show ?thesis
  proof (cases "w = 0")
    case True
    then show ?thesis using length_str_nat_pos[of "nat i"] s by simp
  next
    case False
    have "int (10 ^ w) \<le> i" using assms by simp
    then have "(10::nat) ^ w \<le> nat i" by linarith
    then have "\<not> nat i < 10 ^ w" by simp
    then have "\<not> length (str_nat (nat i)) \<le> w"
      using length_str_nat_le[of w "nat i"] False by simp
    then show ?thesis using s by simp
  qed
qed

text \<open>
  Claim C1. The existing folder names are not empty, the value strings extracted from them
  all have \<open>w\<close> characters and their integers have the maximum \<open>m\<close>. Then
  \<open>get_next_sub_or_ses_number\<close> returns \<open>str(m + 1).zfill(w)\<close>, after \<open>sub-\<close> or
  \<open>ses-\<close> exactly when \<open>return_with_prefix\<close> is set; for \<open>m \<ge> 0\<close> that is the decimal
  representation of \<open>m + 1\<close> with zeros on its left up to \<open>w\<close> characters.
\<close>

theorem get_next_sub_or_ses_number_uniform_width:
  assumes search: "search_project_for_sub_or_ses_names F cfg sub search_str local_only = Inr names"
    and folders: "local names @ central names \<noteq> []"
    and vals: "get_values_from_bids_formatted_name U (remdups (local names @ central names))
                 (if truthy sub then ''ses'' else ''sub'') = Inr vals"
    and nonempty: "vals \<noteq> []"
    and width: "\<forall>v\<in>set vals. length v = w"
    and nums: "map (sub_or_ses_value_to_int U) vals = map Inr nums"
    and m: "m = Max (set nums)"
  shows "get_next_sub_or_ses_number F U cfg sub search_str local_only return_with_prefix d =
           Inr (if \<not> integers_are_consecutive U (sort nums)
                then [SkippedNumberWarning (sort nums)] else [],
                (if return_with_prefix then (if truthy sub then ''ses'' else ''sub'') @ ''-'' else [])
                  @ zfill (str_int (m + 1)) (int w))
         \<and> (0 \<le> m \<longrightarrow>
              zfill (str_int (m + 1)) (int w) =
                replicate (w - length (str_int (m + 1))) CHR ''0'' @ str_int (m + 1))"
proof -
  have pad: "0 \<le> m \<longrightarrow>
      zfill (str_int (m + 1)) (int w) =
        replicate (w - length (str_int (m + 1))) CHR ''0'' @ str_int (m + 1)"
  proof
    assume "0 \<le> m"
    then have "0 \<le> m + 1" by simp
    from zfill_str_int[OF this, of "int w"]
    show "zfill (str_int (m + 1)) (int w) =
        replicate (w - length (str_int (m + 1))) CHR ''0'' @ str_int (m + 1)"
      by (simp add: nat_diff_distrib')
  qed
  show ?thesis
    using get_next_value[OF search folders vals nonempty width nums] pad
    unfolding m by simp
qed

theorem get_next_sub_or_ses_number_uniform_width_witness:
  "get_next_sub_or_ses_number
     (folders_of \<lparr>local = [''sub-001'', ''sub-002'', ''sub-003''], central = []\<rparr>
        (\<lambda>s. \<lparr>local = [], central = []\<rparr>))
     utils_model () None ''sub-*'' False True 3
   = Inr ([], ''sub-004'')"
proof -
  let ?F = "folders_of \<lparr>local = [''sub-001'', ''sub-002'', ''sub-003''], central = []\<rparr>
        (\<lambda>s. \<lparr>local = [], central = []\<rparr>)"
  let ?names = "\<lparr>local = [''sub-001'', ''sub-002'', ''sub-003''], central = []\<rparr>"
  have search: "search_project_for_sub_or_ses_names ?F () None ''sub-*'' False = Inr ?names"
    by (simp add: folders_of_def)
  have folders: "local ?names @ central ?names \<noteq> []" by simp
  have vals: "get_values_from_bids_formatted_name utils_model
      (remdups (local ?names @ central ?names)) (if truthy None then ''ses'' else ''sub'')
      = Inr [''001'', ''002'', ''003'']"
    by (simp add: utils_model_def truthy_def get_value_from_key_model_def split_key_value_def)
  have nonempty: "[''001'', ''002'', ''003''] \<noteq> []" by simp
  have width: "\<forall>v\<in>set [''001'', ''002'', ''003'']. length v = 3" by simp
  have nums: "map (sub_or_ses_value_to_int utils_model) [''001'', ''002'', ''003'']
      = map Inr [1, 2, 3]"
    by (simp add: utils_model_def sub_or_ses_value_to_int_model_def is_digit_def
        nat_of_digits_def digit_value_def)
  have m: "(3::int) = Max (set [1, 2, 3])" by simp
  have four: "zfill (str_int (3 + 1)) (int 3) = ''004''"
    by (simp add: zfill_def str_int_def str_nat.simps digit_char_def Let_def numeral_2_eq_2)
  have cons: "integers_are_consecutive utils_model (sort [1, 2, 3])"
    by (simp add: utils_model_def)
  from get_next_sub_or_ses_number_uniform_width
         [OF search folders vals nonempty width nums m, of True 3]
  show ?thesis
    using four cons by (simp add: truthy_def)
qed

text \<open>
  Claim C9. When \<open>m + 1\<close> needs more than the \<open>w\<close> digits of the existing values
  (\<open>10 ^ w \<le> m + 1\<close>), \<open>get_next_sub_or_ses_number\<close> returns without an error, and the
  value is the decimal representation of \<open>m + 1\<close>, not truncated: it is longer than
  \<open>w\<close>.
\<close>

theorem get_next_sub_or_ses_number_exceeds_width:
  assumes search: "search_project_for_sub_or_ses_names F cfg sub search_str local_only = Inr names"
    and folders: "local names @ central names \<noteq> []"
    and vals: "get_values_from_bids_formatted_name U (remdups (local names @ central names))
                 (if truthy sub then ''ses'' else ''sub'') = Inr vals"
    and nonempty: "vals \<noteq> []"
    and width: "\<forall>v\<in>set vals. length v = w"
    and nums: "map (sub_or_ses_value_to_int U) vals = map Inr nums"
    and m: "m = Max (set nums)"
    and over: "10 ^ w \<le> m + 1"
  shows "get_next_sub_or_ses_number F U cfg sub search_str local_only return_with_prefix d =
           Inr (if \<not> integers_are_consecutive U (sort nums)
                then [SkippedNumberWarning (sort nums)] else [],
                (if return_with_prefix then (if truthy sub then ''ses'' else ''sub'') @ ''-'' else [])
                  @ str_int (m + 1))
         \<and> w < length (str_int (m + 1))"
proof -
  have long: "w < length (str_int (m + 1))"
    using over by (rule str_int_longer)
  then have "zfill (str_int (m + 1)) (int w) = str_int (m + 1)"
    by (simp add: zfill_long)
  then show ?thesis
    using get_next_value[OF search folders vals nonempty width nums] long
    unfolding m by simp
qed

theorem get_next_sub_or_ses_number_exceeds_width_witness:
  "get_next_sub_or_ses_number
     (folders_of \<lparr>local = [''sub-999''], central = []\<rparr> (\<lambda>s. \<lparr>local = [], central = []\<rparr>))
     utils_model () None ''sub-*'' False True 3
   = Inr ([], ''sub-1000'')
   \<and> (3::nat) < length ''1000''"
proof -
  let ?names = "\<lparr>local = [''sub-999''], central = []\<rparr>"
  let ?F = "folders_of ?names (\<lambda>s. \<lparr>local = [], central = []\<rparr>)"
  have search: "search_project_for_sub_or_ses_names ?F () None ''sub-*'' False = Inr ?names"
    by (simp add: folders_of_def)
  have folders: "local ?names @ central ?names \<noteq> []" by simp
  have vals: "get_values_from_bids_formatted_name utils_model
      (remdups (local ?names @ central ?names)) (if truthy None then ''ses'' else ''sub'')
      = Inr [''999'']"
    by (simp add: utils_model_def truthy_def get_value_from_key_model_def split_key_value_def)
  have nonempty: "[''999''] \<noteq> []" by simp
  have width: "\<forall>v\<in>set [''999'']. length v = 3" by simp
  have nums: "map (sub_or_ses_value_to_int utils_model) [''999''] = map Inr [999]"
    by (simp add: utils_model_def sub_or_ses_value_to_int_model_def is_digit_def
        nat_of_digits_def digit_value_def)
  have m: "(999::int) = Max (set [999])" by simp
  have over: "(10::int) ^ 3 \<le> 999 + 1" by simp
  have thousand: "str_int (999 + 1) = ''1000''"
    by (simp add: str_int_def str_nat.simps digit_char_def)
  have cons: "integers_are_consecutive utils_model (sort [999])"
    by (simp add: utils_model_def)
  from get_next_sub_or_ses_number_exceeds_width
         [OF search folders vals nonempty width nums m over, of True 3]
  show ?thesis
    using thousand cons by (simp add: truthy_def)
qed

text \<open>
  Claim C5. When the search finds no folder, \<open>get_next_sub_or_ses_number\<close> returns
  \<open>"1".zfill(default_num_value_digits)\<close>, with or without the prefix: \<open>001\<close> for the
  default of three digits, \<open>sub-001\<close> or \<open>ses-001\<close> with the prefix.
\<close>

theorem get_next_sub_or_ses_number_no_folders:
  assumes search: "search_project_for_sub_or_ses_names F cfg sub search_str local_only = Inr names"
    and no_local: "local names = []"
    and no_central: "central names = []"
  shows "get_next_sub_or_ses_number F U cfg sub search_str local_only return_with_prefix d =
           Inr ([], (if return_with_prefix then (if truthy sub then ''ses'' else ''sub'') @ ''-'' else [])
                      @ zfill ''1'' d)
         \<and> zfill ''1'' 3 = ''001''"
proof -
  have one: "str_int (0 + 1) = ''1''"
    by (simp add: str_int_def str_nat.simps digit_char_def)
  have run: "get_next_sub_or_ses_number F U cfg sub search_str local_only return_with_prefix d =
           Inr ([], (if return_with_prefix then (if truthy sub then ''ses'' else ''sub'') @ ''-'' else [])
                      @ zfill ''1'' d)"
    unfolding get_next_sub_or_ses_number_def get_max_sub_or_ses_num_and_value_length_def
    using search no_local no_central one by (simp add: Let_def)
  have "zfill ''1'' 3 = ''001''"
    by (simp add: zfill_def Let_def numeral_2_eq_2)
  with run show ?thesis by simp
qed

theorem get_next_sub_or_ses_number_no_folders_witness:
  "get_next_sub_or_ses_number
     (folders_of \<lparr>local = [], central = []\<rparr> (\<lambda>s. \<lparr>local = [], central = []\<rparr>))
     utils_model () None ''sub-*'' False True 3 = Inr ([], ''sub-001'')
   \<and> get_next_sub_or_ses_number
     (folders_of \<lparr>local = [], central = []\<rparr> (\<lambda>s. \<lparr>local = [], central = []\<rparr>))
     utils_model () None ''sub-*'' False False 3 = Inr ([], ''001'')
   \<and> get_next_sub_or_ses_number
     (folders_of \<lparr>local = [''sub-001''], central = []\<rparr> (\<lambda>s. \<lparr>local = [], central = []\<rparr>))
     utils_model () (Some ''sub-001'') ''ses-*'' False True 3 = Inr ([], ''ses-001'')"
proof -
  let ?none = "\<lparr>local = [], central = []\<rparr>"
  let ?F = "folders_of ?none (\<lambda>s. ?none)"
  let ?G = "folders_of \<lparr>local = [''sub-001''], central = []\<rparr> (\<lambda>s. ?none)"
  have search: "search_project_for_sub_or_ses_names ?F () None ''sub-*'' False = Inr ?none"
    by (simp add: folders_of_def)
  have search_ses:
    "search_project_for_sub_or_ses_names ?G () (Some ''sub-001'') ''ses-*'' False = Inr ?none"
    by (simp add: folders_of_def)
  have e1: "local ?none = []" and e2: "central ?none = []" by simp_all
  show ?thesis
    using get_next_sub_or_ses_number_no_folders[OF search e1 e2, of utils_model True 3]
      get_next_sub_or_ses_number_no_folders[OF search e1 e2, of utils_model False 3]
      get_next_sub_or_ses_number_no_folders[OF search_ses e1 e2, of utils_model True 3]
    by (simp add: truthy_def)
qed

lemma singleton_image_iff:
  assumes "v0 \<in> A"
  shows "(\<exists>x. f ` A = {x}) = (\<forall>v\<in>A. \<forall>v'\<in>A. f v = f v')"
proof
  assume "\<exists>x. f ` A = {x}"
  then obtain x where x: "f ` A = {x}" ..
  have "f v = x" if "v \<in> A" for v
    using x that by (metis imageI singletonD)
  then show "\<forall>v\<in>A. \<forall>v'\<in>A. f v = f v'" by simp
next
  assume eq: "\<forall>v\<in>A. \<forall>v'\<in>A. f v = f v'"
  have "f ` A = {f v0}"
  proof (rule set_eqI)
    fix y
    show "(y \<in> f ` A) = (y \<in> {f v0})"
      using eq assms by (metis imageE imageI singletonD singletonI)
  qed
  then show "\<exists>x. f ` A = {x}" ..
qed

lemma lengths_not_all_equal:
  "(length (remdups (map length vals)) \<noteq> 1) =
     (vals = [] \<or> (\<exists>v\<in>set vals. \<exists>v'\<in>set vals. length v \<noteq> length v'))"
proof (cases "vals = []")
  case True
  then show ?thesis by simp
next
  case False
  then have "hd vals \<in> set vals" by (rule hd_in_set)
  then obtain v0 where v0: "v0 \<in> set vals" ..
  have "(length (remdups (map length vals)) = 1) =
      (\<forall>v\<in>set vals. \<forall>v'\<in>set vals. length v = length v')"
    unfolding length_remdups_one_iff set_map by (rule singleton_image_iff[OF v0])
  then show ?thesis using False by simp
qed

text \<open>
  The check of the digit counts in \<open>get_max_sub_or_ses_num_and_value_length\<close>: for a list of
  names that is not empty, with one value string per name, the function raises the error
  that names the prefix when two value strings differ in length, and returns when all have
  the same length.
\<close>

lemma get_max_raises_on_inconsistent_digits:
  assumes folders: "all_folders \<noteq> []"
    and vals: "get_values_from_bids_formatted_name U all_folders prefix = Inr vals"
    and one_each: "length vals = length all_folders"
    and nums: "map (sub_or_ses_value_to_int U) vals = map Inr nums"
  shows "((\<exists>v\<in>set vals. \<exists>v'\<in>set vals. length v \<noteq> length v') \<longrightarrow>
            get_max_sub_or_ses_num_and_value_length U all_folders prefix d =
              Inl (NeuroBlueprintError
                (''The number of value digits for the '' @ prefix @ '' level are not '' @
                 ''consistent. Cannot suggest a '' @ prefix @ '' number.'')))
       \<and> ((\<forall>v\<in>set vals. \<forall>v'\<in>set vals. length v = length v') \<longrightarrow>
            (\<exists>r. get_max_sub_or_ses_num_and_value_length U all_folders prefix d = Inr r))"
proof -
  have ne: "vals \<noteq> []" using folders one_each by auto
  have len0: "length all_folders \<noteq> 0" using folders by simp
  have bad: "get_max_sub_or_ses_num_and_value_length U all_folders prefix d =
      Inl (NeuroBlueprintError (inconsistent_digits_message prefix))"
    if differ: "\<exists>v\<in>set vals. \<exists>v'\<in>set vals. length v \<noteq> length v'"
  proof -
    from differ
    have "vals = [] \<or> (\<exists>v\<in>set vals. \<exists>v'\<in>set vals. length v \<noteq> length v')"
      by (rule disjI2)
    then have "length (remdups (map length vals)) \<noteq> 1"
      by (simp only: lengths_not_all_equal)
    then show ?thesis
      unfolding get_max_sub_or_ses_num_and_value_length_def
      using len0 vals by (simp add: Let_def)
  qed
  have good: "\<exists>r. get_max_sub_or_ses_num_and_value_length U all_folders prefix d = Inr r"
    if eq: "\<forall>v\<in>set vals. \<forall>v'\<in>set vals. length v = length v'"
  proof -
    have "hd vals \<in> set vals" using ne by (rule hd_in_set)
    then have "length v = length (hd vals)" if "v \<in> set vals" for v
      using eq that by (rule_tac bspec[OF bspec[OF eq that]])
    then have width: "\<forall>v\<in>set vals. length v = length (hd vals)" by (rule ballI)
    show ?thesis
      by (rule exI, rule get_max_uniform[OF folders vals ne width nums])
  qed
  show ?thesis
  proof (intro conjI impI)
    assume "\<exists>v\<in>set vals. \<exists>v'\<in>set vals. length v \<noteq> length v'"
    from bad[OF this]
    show "get_max_sub_or_ses_num_and_value_length U all_folders prefix d =
        Inl (NeuroBlueprintError
          (''The number of value digits for the '' @ prefix @ '' level are not '' @
           ''consistent. Cannot suggest a '' @ prefix @ '' number.''))"
      by (simp only: inconsistent_digits_message_def)
  next
    assume "\<forall>v\<in>set vals. \<forall>v'\<in>set vals. length v = length v'"
    from good[OF this]
    show "\<exists>r. get_max_sub_or_ses_num_and_value_length U all_folders prefix d = Inr r" .
  qed
qed

lemma get_max_raises_on_inconsistent_digits_example:
  "get_max_sub_or_ses_num_and_value_length utils_model
      ([''sub-001'', ''sub-002''] @ [''sub-3'']) ''sub'' None
     = Inl (NeuroBlueprintError
         ''The number of value digits for the sub level are not consistent. Cannot suggest a sub number.'')
   \<and> (\<exists>r. get_max_sub_or_ses_num_and_value_length utils_model
      ([''sub-001'', ''sub-002''] @ [''sub-003'']) ''sub'' None = Inr r)"
proof -
  have ne: "[''sub-001'', ''sub-002''] @ [c] \<noteq> []" for c :: string by simp
  have vals3: "get_values_from_bids_formatted_name utils_model
      ([''sub-001'', ''sub-002''] @ [''sub-3'']) ''sub'' = Inr [''001'', ''002'', ''3'']"
    by (simp add: utils_model_def get_value_from_key_model_def split_key_value_def)
  have vals003: "get_values_from_bids_formatted_name utils_model
      ([''sub-001'', ''sub-002''] @ [''sub-003'']) ''sub'' = Inr [''001'', ''002'', ''003'']"
    by (simp add: utils_model_def get_value_from_key_model_def split_key_value_def)
  have len3: "length [''001'', ''002'', ''3''] = length ([''sub-001'', ''sub-002''] @ [''sub-3''])"
    by simp
  have len003: "length [''001'', ''002'', ''003''] = length ([''sub-001'', ''sub-002''] @ [''sub-003''])"
    by simp
  have nums3: "map (sub_or_ses_value_to_int utils_model) [''001'', ''002'', ''3'']
      = map Inr [1, 2, 3]"
    by (simp add: utils_model_def sub_or_ses_value_to_int_model_def is_digit_def
        nat_of_digits_def digit_value_def)
  have nums003: "map (sub_or_ses_value_to_int utils_model) [''001'', ''002'', ''003'']
      = map Inr [1, 2, 3]"
    by (simp add: utils_model_def sub_or_ses_value_to_int_model_def is_digit_def
        nat_of_digits_def digit_value_def)
  have differ: "\<exists>v\<in>set [''001'', ''002'', ''3'']. \<exists>v'\<in>set [''001'', ''002'', ''3''].
      length v \<noteq> length v'"
    by (rule bexI[of _ "''001''"], rule bexI[of _ "''3''"]) simp_all
  have same: "\<forall>v\<in>set [''001'', ''002'', ''003'']. \<forall>v'\<in>set [''001'', ''002'', ''003''].
      length v = length v'"
    by simp
  note inconsistent = get_max_raises_on_inconsistent_digits[OF ne vals3 len3 nums3, of None]
  note consistent = get_max_raises_on_inconsistent_digits[OF ne vals003 len003 nums003, of None]
  have raised: "get_max_sub_or_ses_num_and_value_length utils_model
      ([''sub-001'', ''sub-002''] @ [''sub-3'']) ''sub'' None
     = Inl (NeuroBlueprintError
         ''The number of value digits for the sub level are not consistent. Cannot suggest a sub number.'')"
    using inconsistent[THEN conjunct1, THEN mp, OF differ] by simp
  have returned: "\<exists>r. get_max_sub_or_ses_num_and_value_length utils_model
      ([''sub-001'', ''sub-002''] @ [''sub-003'']) ''sub'' None = Inr r"
    using consistent[THEN conjunct2, THEN mp, OF same] .
  from raised returned show ?thesis by (rule conjI)
qed

section \<open>Properties of the template matcher and the consistency checker\<close>

subsection \<open>In error mode the first issue of the scan is raised\<close>

lemma first_issue_raise:
  "raise_error_or_warn issue ErrorMode = ([], first_issue (raise_error_or_warn issue WarnMode))"
  by (simp add: raise_error_or_warn_def first_issue_def)

lemma first_issue_none: "no_issue = ([], first_issue no_issue)"
  by (simp add: no_issue_def first_issue_def)

lemma first_issue_fatal: "fatal issue = ([], first_issue (fatal issue))"
  by (simp add: fatal_def first_issue_def)

lemma first_issue_and_then:
  assumes a: "a = ([], first_issue a')" and b: "b = ([], first_issue b')"
  shows "and_then a b = ([], first_issue (and_then a' b'))"
proof (cases "first_issue a'")
  case None
  then have "fst a' = []" and "snd a' = None"
    by (auto simp: first_issue_def split: list.splits)
  then have "and_then a' b' = b'"
    by (simp add: and_then_def)
  moreover have "and_then a b = b"
    using a None by (simp add: and_then_def)
  ultimately show ?thesis using b by simp
next
  case (Some issue)
  have left: "and_then a b = ([], Some issue)"
    using a Some by (simp add: and_then_def)
  have "first_issue (and_then a' b') = Some issue"
  proof (cases "snd a'")
    case None
    then obtain rest where "fst a' = issue # rest"
      using Some by (auto simp: first_issue_def split: list.splits)
    then show ?thesis using None by (simp add: and_then_def first_issue_def)
  next
    case (Some raised)
    then have "and_then a' b' = a'" by (simp add: and_then_def)
    then show ?thesis using \<open>first_issue a' = Some issue\<close> by simp
  qed
  with left show ?thesis by simp
qed

lemma first_issue_check_all:
  assumes "\<And>x. f x = ([], first_issue (g x))"
  shows "check_all f xs = ([], first_issue (check_all g xs))"
proof (induction xs)
  case Nil
  show ?case by (simp add: first_issue_none[symmetric])
next
  case (Cons x xs)
  show ?case
    unfolding check_all.simps
    by (rule first_issue_and_then[OF assms Cons.IH])
qed

lemma first_issue_template:
  "name_matches_template re_match templates prefix ErrorMode name =
     ([], first_issue (name_matches_template re_match templates prefix WarnMode name))"
  unfolding name_matches_template_def
  by (simp add: first_issue_none[symmetric] first_issue_raise[symmetric] split: option.split)

lemma first_issue_lengths:
  "value_lengths_are_inconsistent prefix ErrorMode names =
     ([], first_issue (value_lengths_are_inconsistent prefix WarnMode names))"
  unfolding value_lengths_are_inconsistent_def
  by (simp add: first_issue_none[symmetric] first_issue_raise[symmetric]
      first_issue_fatal[symmetric] split: sum.split)

lemma first_issue_duplicates:
  "new_name_duplicates_existing prefix ErrorMode other_names new_name =
     ([], first_issue (new_name_duplicates_existing prefix WarnMode other_names new_name))"
proof (cases "get_value_from_key_model new_name prefix")
  case (Inl issue)
  then show ?thesis
    by (simp add: new_name_duplicates_existing_def first_issue_fatal[symmetric])
next
  case (Inr new_value)
  show ?thesis
    unfolding new_name_duplicates_existing_def Inr sum.case
    by (rule first_issue_check_all)
      (simp add: first_issue_none[symmetric] first_issue_raise[symmetric]
        first_issue_fatal[symmetric] split: sum.split)
qed

lemma first_issue_level:
  "validate_level prefix ErrorMode existing_names new_names =
     ([], first_issue (validate_level prefix WarnMode existing_names new_names))"
  unfolding validate_level_def
  by (intro first_issue_and_then first_issue_check_all first_issue_lengths first_issue_duplicates)

lemma first_issue_match_templates:
  "match_templates re_match templates ErrorMode sub_names ses_names =
     ([], first_issue (match_templates re_match templates WarnMode sub_names ses_names))"
proof (cases ses_names)
  case None
  show ?thesis
    unfolding match_templates_def None option.case
    by (intro first_issue_and_then first_issue_check_all first_issue_template first_issue_none)
next
  case (Some new_ses_names)
  show ?thesis
    unfolding match_templates_def Some option.case
    by (intro first_issue_and_then first_issue_check_all first_issue_template)
qed

lemma first_issue_consistency:
  "check_consistency ErrorMode existing_subs existing_ses sub_names ses_names =
     ([], first_issue (check_consistency WarnMode existing_subs existing_ses sub_names ses_names))"
proof (cases ses_names)
  case None
  show ?thesis
    unfolding check_consistency_def None option.case
    by (intro first_issue_and_then first_issue_level first_issue_none)
next
  case (Some new_ses_names)
  show ?thesis
    unfolding check_consistency_def Some option.case
    by (intro first_issue_and_then first_issue_check_all first_issue_level)
qed

lemma first_issue_validate:
  assumes "validate_names_against_project F re_match cfg sub_names ses_names local_only
             WarnMode templates = Inr warned"
  shows "validate_names_against_project F re_match cfg sub_names ses_names local_only
             ErrorMode templates = Inr ([], first_issue warned)"
proof (cases "get_all_sub_and_ses_names F cfg local_only")
  case (Inl e)
  then show ?thesis using assms by (simp add: validate_names_against_project_def)
next
  case (Inr existing)
  obtain existing_subs existing_ses where ex: "existing = (existing_subs, existing_ses)"
    by (cases existing)
  have w: "warned = and_then
      (match_templates re_match templates WarnMode sub_names ses_names)
      (check_consistency WarnMode existing_subs existing_ses sub_names ses_names)"
    using assms Inr ex by (simp add: validate_names_against_project_def)
  show ?thesis
    unfolding validate_names_against_project_def Inr ex sum.case prod.case w
    by (simp only: first_issue_and_then[OF first_issue_match_templates first_issue_consistency])
qed

subsection \<open>In warn mode the report is the scan\<close>

lemma check_all_warned:
  assumes "\<And>x. x \<in> set xs \<Longrightarrow> check x = (issues x, None)"
  shows "check_all check xs = (concat (map issues xs), None)"
  using assms
proof (induction xs)
  case Nil
  show ?case by (simp add: no_issue_def)
next
  case (Cons x xs)
  have x: "check x = (issues x, None)" using Cons.prems by simp
  have rest: "check_all check xs = (concat (map issues xs), None)"
    using Cons.IH Cons.prems by simp
  show ?case by (simp add: x rest and_then_def)
qed

lemma and_then_warned: "and_then (a, None) (b, None) = (a @ b, None)"
  by (simp add: and_then_def)

lemma template_warned:
  "name_matches_template re_match templates prefix WarnMode name
     = (template_issues re_match templates prefix [name], None)"
  by (simp add: name_matches_template_def template_issues_def no_issue_def
      raise_error_or_warn_def split: option.split)

lemma template_issues_concat:
  "concat (map (\<lambda>name. template_issues re_match templates prefix [name]) names)
     = template_issues re_match templates prefix names"
  by (induction names) (simp_all add: template_issues_def split: option.split)

lemma templates_warned:
  "check_all (name_matches_template re_match templates prefix WarnMode) names
     = (template_issues re_match templates prefix names, None)"
proof -
  have "check_all (name_matches_template re_match templates prefix WarnMode) names
      = (concat (map (\<lambda>name. template_issues re_match templates prefix [name]) names), None)"
    by (rule check_all_warned) (rule template_warned)
  then show ?thesis by (simp only: template_issues_concat)
qed

lemma match_templates_warned:
  "match_templates re_match templates WarnMode sub_names ses_names
     = (template_issues re_match templates ''sub'' sub_names
        @ (case ses_names of
             None \<Rightarrow> []
           | Some new_ses_names \<Rightarrow> template_issues re_match templates ''ses'' new_ses_names),
        None)"
  by (cases ses_names)
    (simp_all add: match_templates_def templates_warned and_then_warned no_issue_def)

lemma has_valueD:
  "has_value prefix name \<Longrightarrow> \<exists>v. get_value_from_key_model name prefix = Inr v"
  by (cases "get_value_from_key_model name prefix") (simp_all add: has_value_def)

lemma values_of_names_all:
  assumes "list_all (has_value prefix) names"
  shows "\<exists>vals. values_of_names names prefix = Inr vals"
  using assms
proof (induction names)
  case Nil
  show ?case by simp
next
  case (Cons name names)
  from Cons.prems have "has_value prefix name" by simp
  then obtain v where v: "get_value_from_key_model name prefix = Inr v"
    using has_valueD by blast
  from Cons obtain vals where vals: "values_of_names names prefix = Inr vals" by auto
  show ?case by (simp add: v vals)
qed

lemma lengths_warned:
  assumes "list_all (has_value prefix) names"
  shows "value_lengths_are_inconsistent prefix WarnMode names
           = (if value_lengths_differ prefix names then [InconsistentPadding prefix] else [], None)"
proof -
  obtain vals where "values_of_names names prefix = Inr vals"
    using values_of_names_all[OF assms] by blast
  then show ?thesis
    by (simp add: value_lengths_are_inconsistent_def value_lengths_differ_def no_issue_def
        raise_error_or_warn_def)
qed

lemma duplicate_issues_Nil: "duplicate_issues prefix [] others = []"
  by (simp add: duplicate_issues_def)

lemma duplicate_issues_Cons:
  "duplicate_issues prefix (name # names) others
     = duplicate_issues prefix [name] others @ duplicate_issues prefix names others"
  by (simp add: duplicate_issues_def)

lemma duplicate_issues_concat:
  "concat (map (\<lambda>name. duplicate_issues prefix [name] others) names)
     = duplicate_issues prefix names others"
  by (induction names) (simp_all add: duplicate_issues_def)

lemma duplicates_warned:
  assumes new: "has_value prefix new_name"
    and others: "list_all (has_value prefix) other_names"
  shows "new_name_duplicates_existing prefix WarnMode other_names new_name
           = (duplicate_issues prefix [new_name] other_names, None)"
proof -
  obtain new_value where v: "get_value_from_key_model new_name prefix = Inr new_value"
    using has_valueD[OF new] by blast
  let ?check = "\<lambda>exist_name.
       (case get_value_from_key_model exist_name prefix of
          Inl issue \<Rightarrow> fatal issue
        | Inr exist_value \<Rightarrow>
            if same_primary_value new_value exist_value \<and> new_name \<noteq> exist_name
            then raise_error_or_warn (DuplicateId prefix new_name exist_name) WarnMode
            else no_issue)"
  let ?issues = "\<lambda>e. if names_clash prefix new_name e then [DuplicateId prefix new_name e] else []"
  have one: "?check e = (?issues e, None)" if "e \<in> set other_names" for e
  proof -
    have "has_value prefix e" using others that by (simp add: list_all_iff)
    then obtain v' where v': "get_value_from_key_model e prefix = Inr v'"
      using has_valueD by blast
    show ?thesis
      by (simp add: v v' names_clash_def no_issue_def raise_error_or_warn_def)
  qed
  have all: "check_all ?check other_names = (concat (map ?issues other_names), None)"
    by (rule check_all_warned) (rule one)
  have list: "concat (map ?issues other_names) = duplicate_issues prefix [new_name] other_names"
    by (induction other_names) (simp_all add: duplicate_issues_def)
  have unfold: "new_name_duplicates_existing prefix WarnMode other_names new_name
      = check_all ?check other_names"
    by (simp add: new_name_duplicates_existing_def v)
  show ?thesis unfolding unfold all list ..
qed

lemma duplicates_all_warned:
  assumes names: "list_all (has_value prefix) names"
    and others: "list_all (has_value prefix) other_names"
  shows "check_all (new_name_duplicates_existing prefix WarnMode other_names) names
           = (duplicate_issues prefix names other_names, None)"
proof -
  have one: "new_name_duplicates_existing prefix WarnMode other_names n
      = (duplicate_issues prefix [n] other_names, None)" if "n \<in> set names" for n
  proof -
    have "has_value prefix n" using names that by (simp add: list_all_iff)
    then show ?thesis using others by (rule duplicates_warned)
  qed
  have "check_all (new_name_duplicates_existing prefix WarnMode other_names) names
      = (concat (map (\<lambda>n. duplicate_issues prefix [n] other_names) names), None)"
    by (rule check_all_warned) (rule one)
  then show ?thesis by (simp only: duplicate_issues_concat)
qed

lemma level_warned:
  assumes "list_all (has_value prefix) (existing_names @ new_names)"
  shows "validate_level prefix WarnMode existing_names new_names
           = (level_issues prefix existing_names new_names, None)"
proof -
  have e: "list_all (has_value prefix) existing_names"
    and n: "list_all (has_value prefix) new_names"
    using assms by simp_all
  show ?thesis
    unfolding validate_level_def level_issues_def lengths_warned[OF assms]
      duplicates_all_warned[OF e e] duplicates_all_warned[OF n e] duplicates_all_warned[OF n n]
      and_then_warned ..
qed

lemma consistency_warned:
  assumes "names_have_values existing_subs (sessions_of existing_ses) sub_names ses_names"
  shows "check_consistency WarnMode existing_subs existing_ses sub_names ses_names
           = (level_issues ''sub'' existing_subs sub_names
              @ (case ses_names of
                   None \<Rightarrow> []
                 | Some new_ses_names \<Rightarrow>
                     concat (map (\<lambda>new_sub. level_issues ''ses'' (sessions_of existing_ses new_sub)
                                               new_ses_names)
                               sub_names)),
              None)"
proof -
  have subs: "list_all (has_value ''sub'') (existing_subs @ sub_names)"
    using assms unfolding names_have_values_def by (rule conjunct1)
  show ?thesis
  proof (cases ses_names)
    case None
    show ?thesis
      unfolding check_consistency_def None option.case level_warned[OF subs] no_issue_def
        and_then_warned ..
  next
    case (Some new_ses_names)
    have ses: "list_all (\<lambda>new_sub. list_all (has_value ''ses'')
                 (sessions_of existing_ses new_sub @ new_ses_names)) sub_names"
      using assms unfolding names_have_values_def Some option.case by (rule conjunct2)
    have one: "validate_level ''ses'' WarnMode (sessions_of existing_ses s) new_ses_names
        = (level_issues ''ses'' (sessions_of existing_ses s) new_ses_names, None)"
      if "s \<in> set sub_names" for s
    proof -
      have "list_all (has_value ''ses'') (sessions_of existing_ses s @ new_ses_names)"
        using ses that unfolding list_all_iff by (rule bspec)
      then show ?thesis by (rule level_warned)
    qed
    have all: "check_all (\<lambda>new_sub. validate_level ''ses'' WarnMode
                   (sessions_of existing_ses new_sub) new_ses_names) sub_names
        = (concat (map (\<lambda>new_sub. level_issues ''ses'' (sessions_of existing_ses new_sub)
                                    new_ses_names) sub_names), None)"
      by (rule check_all_warned) (rule one)
    show ?thesis
      unfolding check_consistency_def Some option.case level_warned[OF subs] all
        and_then_warned ..
  qed
qed

lemma validate_warned:
  assumes existing: "get_all_sub_and_ses_names F cfg local_only = Inr (existing_subs, existing_ses)"
    and parsed: "names_have_values existing_subs (sessions_of existing_ses) sub_names ses_names"
  shows "validate_names_against_project F re_match cfg sub_names ses_names local_only WarnMode
           templates
         = Inr (scan_issues re_match templates existing_subs (sessions_of existing_ses)
                  sub_names ses_names, None)"
  unfolding validate_names_against_project_def existing sum.case prod.case
    match_templates_warned consistency_warned[OF parsed] and_then_warned scan_issues_def
  by simp

lemma all_ses_folder_names_found:
  assumes "\<forall>s\<in>set subs.
             search_project_for_sub_or_ses_names F cfg (Some s) ''ses-*'' local_only
               = Inr (found s)"
  shows "all_ses_folder_names F cfg local_only subs acc
           = Inr (\<lambda>s. if s \<in> set subs then Some (local_or_all local_only (found s)) else acc s)"
  using assms
proof (induction subs arbitrary: acc)
  case Nil
  show ?case by simp
next
  case (Cons sub subs)
  have sub: "search_project_for_sub_or_ses_names F cfg (Some sub) ''ses-*'' local_only
      = Inr (found sub)"
    using Cons.prems by simp
  have rest: "\<forall>s\<in>set subs.
      search_project_for_sub_or_ses_names F cfg (Some s) ''ses-*'' local_only = Inr (found s)"
    using Cons.prems by simp
  show ?case
    unfolding all_ses_folder_names.simps sub sum.case Cons.IH[OF rest]
    by (auto simp: fun_eq_iff)
qed

lemma get_all_sub_and_ses_names_found:
  assumes subs: "search_project_for_sub_or_ses_names F cfg None ''sub-*'' local_only
                   = Inr found_subs"
    and ses: "\<forall>s\<in>set (local_or_all local_only found_subs).
                search_project_for_sub_or_ses_names F cfg (Some s) ''ses-*'' local_only
                  = Inr (found_ses s)"
  shows "\<exists>existing_ses.
           get_all_sub_and_ses_names F cfg local_only
             = Inr (local_or_all local_only found_subs, existing_ses)
           \<and> sessions_of existing_ses
               = (\<lambda>s. if s \<in> set (local_or_all local_only found_subs)
                      then local_or_all local_only (found_ses s) else [])"
proof -
  let ?m = "\<lambda>s. if s \<in> set (local_or_all local_only found_subs)
                 then Some (local_or_all local_only (found_ses s)) else Map.empty s"
  have "get_all_sub_and_ses_names F cfg local_only
      = Inr (local_or_all local_only found_subs, ?m)"
    unfolding get_all_sub_and_ses_names_def subs sum.case Let_def
      all_ses_folder_names_found[OF ses] ..
  moreover have "sessions_of ?m
      = (\<lambda>s. if s \<in> set (local_or_all local_only found_subs)
             then local_or_all local_only (found_ses s) else [])"
    by (simp add: sessions_of_def fun_eq_iff)
  ultimately show ?thesis by blast
qed

lemma first_issue_warned:
  "first_issue (issues, None) = (case issues of [] \<Rightarrow> None | issue # rest \<Rightarrow> Some issue)"
  by (simp add: first_issue_def split: list.split)

lemma validate_found:
  assumes subs: "search_project_for_sub_or_ses_names F cfg None ''sub-*'' local_only
                   = Inr found_subs"
    and existing_subs: "existing_subs
          = (if local_only then local found_subs else local found_subs @ central found_subs)"
    and ses: "\<forall>s\<in>set existing_subs.
                search_project_for_sub_or_ses_names F cfg (Some s) ''ses-*'' local_only
                  = Inr (found_ses s)"
    and existing_ses: "existing_ses
          = (\<lambda>s. if s \<in> set existing_subs
                  then (if local_only then local (found_ses s)
                        else local (found_ses s) @ central (found_ses s))
                  else [])"
    and parsed: "names_have_values existing_subs existing_ses sub_names ses_names"
  shows "validate_names_against_project F re_match cfg sub_names ses_names local_only WarnMode
           templates
         = Inr (scan_issues re_match templates existing_subs existing_ses sub_names ses_names,
                None)"
proof -
  have subs_eq: "existing_subs = local_or_all local_only found_subs"
    by (simp add: existing_subs local_or_all_def)
  have ses': "\<forall>s\<in>set (local_or_all local_only found_subs).
      search_project_for_sub_or_ses_names F cfg (Some s) ''ses-*'' local_only = Inr (found_ses s)"
    using ses unfolding subs_eq .
  obtain m where existing: "get_all_sub_and_ses_names F cfg local_only
        = Inr (local_or_all local_only found_subs, m)"
    and m: "sessions_of m
        = (\<lambda>s. if s \<in> set (local_or_all local_only found_subs)
               then local_or_all local_only (found_ses s) else [])"
    using get_all_sub_and_ses_names_found[OF subs ses'] by blast
  have ses_eq: "existing_ses = sessions_of m"
    unfolding m existing_ses subs_eq by (simp add: local_or_all_def fun_eq_iff)
  have existing': "get_all_sub_and_ses_names F cfg local_only = Inr (existing_subs, m)"
    unfolding subs_eq by (rule existing)
  have parsed': "names_have_values existing_subs (sessions_of m) sub_names ses_names"
    using parsed unfolding ses_eq .
  show ?thesis
    using validate_warned[OF existing' parsed', of re_match templates] unfolding ses_eq .
qed

subsection \<open>The order of the scan\<close>


lemmas validation_defs =
  validate_names_against_project_def get_all_sub_and_ses_names_def folders_of_def
  local_or_all_def validate_level_def match_templates_def check_consistency_def
  name_matches_template_def template_for_def
  get_name_templates_defaults_def value_lengths_are_inconsistent_def
  new_name_duplicates_existing_def get_value_from_key_model_def split_key_value_def
  and_then_def no_issue_def raise_error_or_warn_def fatal_def is_numeric_def is_digit_def
  same_primary_value_def nat_of_digits_def digit_value_def sessions_of_def Let_def

lemmas scan_defs =
  template_issues_def template_for_def duplicate_issues_def names_clash_def
  value_lengths_differ_def has_value_def names_have_values_def
  get_value_from_key_model_def split_key_value_def is_numeric_def is_digit_def
  same_primary_value_def nat_of_digits_def digit_value_def




text \<open>
  The model gives the warnings that \<open>test_validate_names_against_project\<close> expects, in the
  order it expects them, and raises the errors it expects: none for a candidate that is an
  existing name, the duplicate id of \<open>sub-1_id-11\<close>, and the duplicate id of \<open>sub-4\<close> with the
  central \<open>sub-4_date-2023\<close> only when the central names are searched.
\<close>

lemma test_validate_names_against_project_subjects:
  "validate_names_against_project
     (folders_of \<lparr>local = [''sub-1_id-@'', ''sub-2_id-b'', ''sub-3_id-c''], central = []\<rparr>
        (\<lambda>s. \<lparr>local = [], central = []\<rparr>))
     re_match () [''sub-002'', ''sub-1_id-11'', ''sub-3_id-c'', ''sub-4''] None True WarnMode
     get_name_templates_defaults
   = Inr ([InconsistentPadding ''sub'',
           DuplicateId ''sub'' ''sub-002'' ''sub-2_id-b'',
           DuplicateId ''sub'' ''sub-1_id-11'' ''sub-1_id-@''], None)"
proof -
  let ?found_subs = "\<lparr>local = [''sub-1_id-@'', ''sub-2_id-b'', ''sub-3_id-c''], central = []\<rparr>"
  let ?found_ses = "\<lambda>s::string. \<lparr>local = [], central = []\<rparr>"
  let ?F = "folders_of ?found_subs ?found_ses"
  let ?existing_subs = "[''sub-1_id-@'', ''sub-2_id-b'', ''sub-3_id-c'']"
  let ?existing_ses = "\<lambda>s. if s \<in> set ?existing_subs
                  then (if True then local (?found_ses s)
                        else local (?found_ses s) @ central (?found_ses s))
                  else []"
  let ?sub_names = "[''sub-002'', ''sub-1_id-11'', ''sub-3_id-c'', ''sub-4'']"
  have subs: "search_project_for_sub_or_ses_names ?F () None ''sub-*'' True = Inr ?found_subs"
    by (simp add: folders_of_def)
  have existing_subs: "?existing_subs
      = (if True then local ?found_subs else local ?found_subs @ central ?found_subs)"
    by simp
  have ses: "\<forall>s\<in>set ?existing_subs.
      search_project_for_sub_or_ses_names ?F () (Some s) ''ses-*'' True = Inr (?found_ses s)"
    by (simp add: folders_of_def)
  have parsed: "names_have_values ?existing_subs ?existing_ses ?sub_names None"
    by (simp add: scan_defs)
  have scan: "scan_issues re_match get_name_templates_defaults ?existing_subs ?existing_ses
      ?sub_names None
    = [InconsistentPadding ''sub'',
       DuplicateId ''sub'' ''sub-002'' ''sub-2_id-b'',
       DuplicateId ''sub'' ''sub-1_id-11'' ''sub-1_id-@'']"
    by (simp add: scan_issues_def level_issues_def get_name_templates_defaults_def scan_defs)
  show ?thesis
    using validate_found[OF subs existing_subs ses refl parsed,
        of re_match get_name_templates_defaults]
    unfolding scan .
qed

lemma test_validate_names_against_project_sessions:
  "validate_names_against_project
     (folders_of \<lparr>local = [''sub-1_id-@'', ''sub-2_id-b'', ''sub-3_id-c''],
                  central = [''sub-4_date-2023'']\<rparr>
        (\<lambda>s. if s = ''sub-2_id-b'' then \<lparr>local = [''ses-001'', ''ses-002''], central = []\<rparr>
              else if s = ''sub-4_date-2023'' then \<lparr>local = [], central = [''ses-003'']\<rparr>
              else \<lparr>local = [], central = []\<rparr>))
     re_match () [''sub-1_id-@'', ''sub-2_id-b'', ''sub-4_date-2023'']
     (Some [''ses-002_id-11'', ''ses-003_id-random'']) False WarnMode get_name_templates_defaults
   = Inr ([DuplicateId ''ses'' ''ses-002_id-11'' ''ses-002'',
           DuplicateId ''ses'' ''ses-003_id-random'' ''ses-003''], None)"
proof -
  let ?found_subs = "\<lparr>local = [''sub-1_id-@'', ''sub-2_id-b'', ''sub-3_id-c''],
                  central = [''sub-4_date-2023'']\<rparr>"
  let ?found_ses = "\<lambda>s. if s = ''sub-2_id-b'' then \<lparr>local = [''ses-001'', ''ses-002''], central = []\<rparr>
              else if s = ''sub-4_date-2023'' then \<lparr>local = [], central = [''ses-003'']\<rparr>
              else \<lparr>local = [], central = []\<rparr>"
  let ?F = "folders_of ?found_subs ?found_ses"
  let ?existing_subs = "[''sub-1_id-@'', ''sub-2_id-b'', ''sub-3_id-c'', ''sub-4_date-2023'']"
  let ?existing_ses = "\<lambda>s. if s \<in> set ?existing_subs
                  then (if False then local (?found_ses s)
                        else local (?found_ses s) @ central (?found_ses s))
                  else []"
  let ?sub_names = "[''sub-1_id-@'', ''sub-2_id-b'', ''sub-4_date-2023'']"
  let ?ses_names = "Some [''ses-002_id-11'', ''ses-003_id-random'']"
  have subs: "search_project_for_sub_or_ses_names ?F () None ''sub-*'' False = Inr ?found_subs"
    by (simp add: folders_of_def)
  have existing_subs: "?existing_subs
      = (if False then local ?found_subs else local ?found_subs @ central ?found_subs)"
    by simp
  have ses: "\<forall>s\<in>set ?existing_subs.
      search_project_for_sub_or_ses_names ?F () (Some s) ''ses-*'' False = Inr (?found_ses s)"
    by (simp add: folders_of_def)
  have parsed: "names_have_values ?existing_subs ?existing_ses ?sub_names ?ses_names"
    by (simp add: scan_defs)
  have scan: "scan_issues re_match get_name_templates_defaults ?existing_subs ?existing_ses
      ?sub_names ?ses_names
    = [DuplicateId ''ses'' ''ses-002_id-11'' ''ses-002'',
       DuplicateId ''ses'' ''ses-003_id-random'' ''ses-003'']"
    by (simp add: scan_issues_def level_issues_def get_name_templates_defaults_def scan_defs)
  show ?thesis
    using validate_found[OF subs existing_subs ses refl parsed,
        of re_match get_name_templates_defaults]
    unfolding scan .
qed

lemma test_validate_names_against_project_error:
  "validate_names_against_project
     (folders_of \<lparr>local = [''sub-1_id-@'', ''sub-2_id-b'', ''sub-3_id-c''], central = []\<rparr>
        (\<lambda>s. \<lparr>local = [], central = []\<rparr>))
     re_match () [''sub-1_id-@''] None True ErrorMode get_name_templates_defaults
   = Inr ([], None)
   \<and> validate_names_against_project
     (folders_of \<lparr>local = [''sub-1_id-@'', ''sub-2_id-b'', ''sub-3_id-c''], central = []\<rparr>
        (\<lambda>s. \<lparr>local = [], central = []\<rparr>))
     re_match () [''sub-2_id-b'', ''sub-1_id-11'', ''sub-3_id-c''] None True ErrorMode
     get_name_templates_defaults
   = Inr ([], Some (DuplicateId ''sub'' ''sub-1_id-11'' ''sub-1_id-@''))"
proof -
  let ?found_subs = "\<lparr>local = [''sub-1_id-@'', ''sub-2_id-b'', ''sub-3_id-c''], central = []\<rparr>"
  let ?found_ses = "\<lambda>s::string. \<lparr>local = [], central = []\<rparr>"
  let ?F = "folders_of ?found_subs ?found_ses"
  let ?existing_subs = "[''sub-1_id-@'', ''sub-2_id-b'', ''sub-3_id-c'']"
  let ?existing_ses = "\<lambda>s. if s \<in> set ?existing_subs
                  then (if True then local (?found_ses s)
                        else local (?found_ses s) @ central (?found_ses s))
                  else []"
  let ?same = "[''sub-1_id-@'']"
  let ?clashing = "[''sub-2_id-b'', ''sub-1_id-11'', ''sub-3_id-c'']"
  have subs: "search_project_for_sub_or_ses_names ?F () None ''sub-*'' True = Inr ?found_subs"
    by (simp add: folders_of_def)
  have existing_subs: "?existing_subs
      = (if True then local ?found_subs else local ?found_subs @ central ?found_subs)"
    by simp
  have ses: "\<forall>s\<in>set ?existing_subs.
      search_project_for_sub_or_ses_names ?F () (Some s) ''ses-*'' True = Inr (?found_ses s)"
    by (simp add: folders_of_def)
  have parsed_same: "names_have_values ?existing_subs ?existing_ses ?same None"
    by (simp add: scan_defs)
  have parsed_clashing: "names_have_values ?existing_subs ?existing_ses ?clashing None"
    by (simp add: scan_defs)
  have scan_same: "scan_issues re_match get_name_templates_defaults ?existing_subs ?existing_ses
      ?same None = []"
    by (simp add: scan_issues_def level_issues_def get_name_templates_defaults_def scan_defs)
  have scan_clashing: "scan_issues re_match get_name_templates_defaults ?existing_subs
      ?existing_ses ?clashing None = [DuplicateId ''sub'' ''sub-1_id-11'' ''sub-1_id-@'']"
    by (simp add: scan_issues_def level_issues_def get_name_templates_defaults_def scan_defs)
  have same: "validate_names_against_project ?F re_match () ?same None True ErrorMode
      get_name_templates_defaults = Inr ([], None)"
    using first_issue_validate[OF validate_found[OF subs existing_subs ses refl parsed_same,
        of re_match get_name_templates_defaults]]
    unfolding scan_same by (simp add: first_issue_def)
  have clashing: "validate_names_against_project ?F re_match () ?clashing None True ErrorMode
      get_name_templates_defaults
    = Inr ([], Some (DuplicateId ''sub'' ''sub-1_id-11'' ''sub-1_id-@''))"
    using first_issue_validate[OF validate_found[OF subs existing_subs ses refl parsed_clashing,
        of re_match get_name_templates_defaults]]
    unfolding scan_clashing by (simp add: first_issue_def)
  from same clashing show ?thesis by (rule conjI)
qed

lemma test_validate_names_against_project_central:
  "validate_names_against_project
     (folders_of \<lparr>local = [''sub-1_id-@'', ''sub-2_id-b'', ''sub-3_id-c''],
                  central = [''sub-4_date-2023'']\<rparr>
        (\<lambda>s. \<lparr>local = [], central = []\<rparr>))
     re_match () [''sub-4'', ''sub-5''] None True ErrorMode get_name_templates_defaults
   = Inr ([], None)
   \<and> validate_names_against_project
     (folders_of \<lparr>local = [''sub-1_id-@'', ''sub-2_id-b'', ''sub-3_id-c''],
                  central = [''sub-4_date-2023'']\<rparr>
        (\<lambda>s. \<lparr>local = [], central = []\<rparr>))
     re_match () [''sub-4'', ''sub-5''] None False ErrorMode get_name_templates_defaults
   = Inr ([], Some (DuplicateId ''sub'' ''sub-4'' ''sub-4_date-2023''))"
proof -
  let ?found_subs = "\<lparr>local = [''sub-1_id-@'', ''sub-2_id-b'', ''sub-3_id-c''],
                  central = [''sub-4_date-2023'']\<rparr>"
  let ?found_ses = "\<lambda>s::string. \<lparr>local = [], central = []\<rparr>"
  let ?F = "folders_of ?found_subs ?found_ses"
  let ?local = "[''sub-1_id-@'', ''sub-2_id-b'', ''sub-3_id-c'']"
  let ?all = "[''sub-1_id-@'', ''sub-2_id-b'', ''sub-3_id-c'', ''sub-4_date-2023'']"
  let ?local_ses = "\<lambda>s. if s \<in> set ?local
                  then (if True then local (?found_ses s)
                        else local (?found_ses s) @ central (?found_ses s))
                  else []"
  let ?all_ses = "\<lambda>s. if s \<in> set ?all
                  then (if False then local (?found_ses s)
                        else local (?found_ses s) @ central (?found_ses s))
                  else []"
  let ?new = "[''sub-4'', ''sub-5'']"
  have subs_local: "search_project_for_sub_or_ses_names ?F () None ''sub-*'' True
      = Inr (?found_subs\<lparr>central := []\<rparr>)"
    by (simp add: folders_of_def)
  have subs_all: "search_project_for_sub_or_ses_names ?F () None ''sub-*'' False
      = Inr ?found_subs"
    by (simp add: folders_of_def)
  have existing_local: "?local
      = (if True then local (?found_subs\<lparr>central := []\<rparr>)
         else local (?found_subs\<lparr>central := []\<rparr>) @ central (?found_subs\<lparr>central := []\<rparr>))"
    by simp
  have existing_all: "?all
      = (if False then local ?found_subs else local ?found_subs @ central ?found_subs)"
    by simp
  have ses_local: "\<forall>s\<in>set ?local.
      search_project_for_sub_or_ses_names ?F () (Some s) ''ses-*'' True = Inr (?found_ses s)"
    by (simp add: folders_of_def)
  have ses_all: "\<forall>s\<in>set ?all.
      search_project_for_sub_or_ses_names ?F () (Some s) ''ses-*'' False = Inr (?found_ses s)"
    by (simp add: folders_of_def)
  have parsed_local: "names_have_values ?local ?local_ses ?new None"
    by (simp add: scan_defs)
  have parsed_all: "names_have_values ?all ?all_ses ?new None"
    by (simp add: scan_defs)
  have scan_local: "scan_issues re_match get_name_templates_defaults ?local ?local_ses ?new None
      = []"
    by (simp add: scan_issues_def level_issues_def get_name_templates_defaults_def scan_defs)
  have scan_all: "scan_issues re_match get_name_templates_defaults ?all ?all_ses ?new None
      = [DuplicateId ''sub'' ''sub-4'' ''sub-4_date-2023'']"
    by (simp add: scan_issues_def level_issues_def get_name_templates_defaults_def scan_defs)
  have local_only: "validate_names_against_project ?F re_match () ?new None True ErrorMode
      get_name_templates_defaults = Inr ([], None)"
    using first_issue_validate[OF validate_found[OF subs_local existing_local ses_local refl
        parsed_local, of re_match get_name_templates_defaults]]
    unfolding scan_local by (simp add: first_issue_def)
  have with_central: "validate_names_against_project ?F re_match () ?new None False ErrorMode
      get_name_templates_defaults
    = Inr ([], Some (DuplicateId ''sub'' ''sub-4'' ''sub-4_date-2023''))"
    using first_issue_validate[OF validate_found[OF subs_all existing_all ses_all refl
        parsed_all, of re_match get_name_templates_defaults]]
    unfolding scan_all by (simp add: first_issue_def)
  from local_only with_central show ?thesis by (rule conjI)
qed

subsection \<open>The name templates\<close>

lemma template_issues_matching:
  assumes "list_all (re_match template) names"
  shows "[TemplateMismatch name template. name \<leftarrow> names, \<not> re_match template name] = []"
  using assms by (induction names) simp_all

lemma template_issues_first:
  assumes on: "template_on templates"
    and template: "template_for templates prefix = Some template"
    and matching: "list_all (re_match template) matching"
    and mismatch: "\<not> re_match template name"
  shows "template_issues re_match templates prefix (matching @ name # rest)
           = TemplateMismatch name template # template_issues re_match templates prefix rest"
  using template_issues_matching[where re_match = re_match and template = template
      and names = matching, OF matching] mismatch
  by (simp add: template_issues_def on template)

lemma template_raised:
  assumes existing: "get_all_sub_and_ses_names F cfg local_only = Inr (existing_subs, existing_ses)"
    and first: "fst (match_templates re_match templates WarnMode sub_names ses_names)
                  = issue # others"
  shows "validate_names_against_project F re_match cfg sub_names ses_names local_only
           ErrorMode templates = Inr ([], Some issue)"
proof -
  have "first_issue (match_templates re_match templates WarnMode sub_names ses_names)
      = Some issue"
    using first by (simp add: first_issue_def)
  then have "match_templates re_match templates ErrorMode sub_names ses_names
      = ([], Some issue)"
    using first_issue_match_templates[of re_match templates sub_names ses_names] by simp
  then show ?thesis
    by (simp add: validate_names_against_project_def existing and_then_def)
qed

lemma and_then_no_issue: "and_then no_issue r = r"
  by (simp add: and_then_def no_issue_def)

lemma templates_off:
  assumes "\<not> template_on templates"
  shows "match_templates re_match templates mode sub_names ses_names = no_issue"
proof -
  have one: "name_matches_template re_match templates prefix mode = (\<lambda>n. no_issue)" for prefix
    using assms by (simp add: name_matches_template_def fun_eq_iff)
  have all: "check_all (\<lambda>n. no_issue) names = no_issue" for names :: "string list"
    by (induction names) (simp_all add: and_then_def no_issue_def)
  show ?thesis
    by (cases ses_names) (simp_all add: match_templates_def one all and_then_no_issue)
qed

text \<open>
  Claim C7. With \<open>on\<close> true and a template set for subjects, the first candidate subject
  that does not match the template makes \<open>validate_names_against_project\<close> fail in error
  mode with \<open>TemplateMismatch\<close>; with a template set for sessions, so does the first
  candidate session that does not match it, when the candidate subjects match theirs. The
  message holds the name and the template as they are. In warn mode the report begins with
  the template mismatches of the candidate subjects and sessions. With \<open>on\<close> false no name
  is matched against a template, whatever templates are stored: the result is that of the
  consistency checker alone, and the one for the default templates.
\<close>

theorem template_mismatch_only_when_on:
  assumes existing: "get_all_sub_and_ses_names F cfg local_only = Inr (existing_subs, existing_ses)"
  shows "(template_on templates \<and> template_sub templates = Some template
            \<and> sub_names = matching @ name # rest
            \<and> list_all (re_match template) matching \<and> \<not> re_match template name \<longrightarrow>
            validate_names_against_project F re_match cfg sub_names ses_names local_only
              ErrorMode templates = Inr ([], Some (TemplateMismatch name template)))
       \<and> (template_on templates \<and> template_ses templates = Some template
            \<and> ses_names = Some (matching @ name # rest)
            \<and> list_all (re_match template) matching \<and> \<not> re_match template name
            \<and> (\<forall>sub_template. template_sub templates = Some sub_template
                   \<longrightarrow> list_all (re_match sub_template) sub_names) \<longrightarrow>
            validate_names_against_project F re_match cfg sub_names ses_names local_only
              ErrorMode templates = Inr ([], Some (TemplateMismatch name template)))
       \<and> issue_message (TemplateMismatch name template)
            = ''The name: '' @ name @ '' does not match the template: '' @ template
       \<and> (\<exists>others.
            validate_names_against_project F re_match cfg sub_names ses_names local_only
              WarnMode templates
            = Inr (template_issues re_match templates ''sub'' sub_names
                   @ (case ses_names of
                        None \<Rightarrow> []
                      | Some new_ses_names \<Rightarrow>
                          template_issues re_match templates ''ses'' new_ses_names)
                   @ fst others, snd others))
       \<and> (\<not> template_on templates \<longrightarrow>
            match_templates re_match templates mode sub_names ses_names = no_issue
            \<and> validate_names_against_project F re_match cfg sub_names ses_names local_only mode
                templates
              = Inr (check_consistency mode existing_subs existing_ses sub_names ses_names)
            \<and> validate_names_against_project F re_match cfg sub_names ses_names local_only mode
                templates
              = validate_names_against_project F re_match cfg sub_names ses_names local_only mode
                  get_name_templates_defaults)"
proof (intro conjI impI)
  assume a: "template_on templates \<and> template_sub templates = Some template
            \<and> sub_names = matching @ name # rest
            \<and> list_all (re_match template) matching \<and> \<not> re_match template name"
  then have t: "template_for templates ''sub'' = Some template"
    by (simp add: template_for_def)
  have "template_issues re_match templates ''sub'' sub_names
      = TemplateMismatch name template # template_issues re_match templates ''sub'' rest"
    using a template_issues_first[OF _ t, of re_match matching name rest] by simp
  then have "fst (match_templates re_match templates WarnMode sub_names ses_names)
      = TemplateMismatch name template
        # (template_issues re_match templates ''sub'' rest
           @ (case ses_names of
                None \<Rightarrow> []
              | Some new_ses_names \<Rightarrow> template_issues re_match templates ''ses'' new_ses_names))"
    by (simp add: match_templates_warned)
  then show "validate_names_against_project F re_match cfg sub_names ses_names local_only
              ErrorMode templates = Inr ([], Some (TemplateMismatch name template))"
    by (rule template_raised[OF existing])
next
  assume a: "template_on templates \<and> template_ses templates = Some template
            \<and> ses_names = Some (matching @ name # rest)
            \<and> list_all (re_match template) matching \<and> \<not> re_match template name
            \<and> (\<forall>sub_template. template_sub templates = Some sub_template
                   \<longrightarrow> list_all (re_match sub_template) sub_names)"
  then have t: "template_for templates ''ses'' = Some template"
    by (simp add: template_for_def)
  have ses: "template_issues re_match templates ''ses'' (matching @ name # rest)
      = TemplateMismatch name template # template_issues re_match templates ''ses'' rest"
    using a template_issues_first[OF _ t, of re_match matching name rest] by simp
  have sub: "template_issues re_match templates ''sub'' sub_names = []"
  proof (cases "template_sub templates")
    case None
    then show ?thesis by (simp add: template_issues_def template_for_def)
  next
    case (Some sub_template)
    with a have "list_all (re_match sub_template) sub_names" by simp
    from template_issues_matching[where re_match = re_match and template = sub_template
        and names = sub_names, OF this] Some show ?thesis
      by (simp add: template_issues_def template_for_def)
  qed
  have names: "ses_names = Some (matching @ name # rest)" using a by simp
  have "fst (match_templates re_match templates WarnMode sub_names ses_names)
      = TemplateMismatch name template # template_issues re_match templates ''ses'' rest"
    unfolding match_templates_warned names option.case sub ses by simp
  then show "validate_names_against_project F re_match cfg sub_names ses_names local_only
              ErrorMode templates = Inr ([], Some (TemplateMismatch name template))"
    by (rule template_raised[OF existing])
next
  show "issue_message (TemplateMismatch name template)
            = ''The name: '' @ name @ '' does not match the template: '' @ template"
    by simp
next
  let ?c = "check_consistency WarnMode existing_subs existing_ses sub_names ses_names"
  have "validate_names_against_project F re_match cfg sub_names ses_names local_only
              WarnMode templates
            = Inr (template_issues re_match templates ''sub'' sub_names
                   @ (case ses_names of
                        None \<Rightarrow> []
                      | Some new_ses_names \<Rightarrow>
                          template_issues re_match templates ''ses'' new_ses_names)
                   @ fst ?c, snd ?c)"
    by (simp add: validate_names_against_project_def existing match_templates_warned
        and_then_def)
  then show "\<exists>others.
            validate_names_against_project F re_match cfg sub_names ses_names local_only
              WarnMode templates
            = Inr (template_issues re_match templates ''sub'' sub_names
                   @ (case ses_names of
                        None \<Rightarrow> []
                      | Some new_ses_names \<Rightarrow>
                          template_issues re_match templates ''ses'' new_ses_names)
                   @ fst others, snd others)"
    by (rule exI)
next
  assume off: "\<not> template_on templates"
  show "match_templates re_match templates mode sub_names ses_names = no_issue"
    by (rule templates_off[OF off])
next
  assume off: "\<not> template_on templates"
  show "validate_names_against_project F re_match cfg sub_names ses_names local_only mode
                templates
              = Inr (check_consistency mode existing_subs existing_ses sub_names ses_names)"
    by (simp add: validate_names_against_project_def existing templates_off[OF off]
        and_then_no_issue)
next
  assume off: "\<not> template_on templates"
  have "\<not> template_on get_name_templates_defaults"
    by (simp add: get_name_templates_defaults_def)
  then show "validate_names_against_project F re_match cfg sub_names ses_names local_only mode
                templates
              = validate_names_against_project F re_match cfg sub_names ses_names local_only mode
                  get_name_templates_defaults"
    by (simp add: validate_names_against_project_def existing templates_off[OF off]
        templates_off)
qed

theorem template_mismatch_only_when_on_witness:
  "validate_names_against_project
     (folders_of \<lparr>local = [''sub-2_id-ab_random-helloworld''], central = []\<rparr>
        (\<lambda>s. \<lparr>local = [''ses-33_id-xyz_random-helloworld''], central = []\<rparr>))
     (\<lambda>template name. name \<in> set [''sub-2_id-ab_random-helloworld'',
                                    ''ses-33_id-xyz_random-helloworld'']) ()
     [''sub-3_id-abC_random-helloworld''] None True ErrorMode
     \<lparr>template_on = True,
      template_sub = Some (''sub-'' @ [CHR 0x5C] @ ''d_id-.?.?_random-.*''),
      template_ses = Some (''ses-'' @ [CHR 0x5C] @ ''d'' @ [CHR 0x5C] @ ''d_id-.?.?.?_random-.*'')\<rparr>
   = Inr ([], Some (TemplateMismatch ''sub-3_id-abC_random-helloworld''
                      (''sub-'' @ [CHR 0x5C] @ ''d_id-.?.?_random-.*'')))
   \<and> validate_names_against_project
     (folders_of \<lparr>local = [''sub-2_id-ab_random-helloworld''], central = []\<rparr>
        (\<lambda>s. \<lparr>local = [''ses-33_id-xyz_random-helloworld''], central = []\<rparr>))
     (\<lambda>template name. name \<in> set [''sub-2_id-ab_random-helloworld'',
                                    ''ses-33_id-xyz_random-helloworld'']) ()
     [''sub-2_id-ab_random-helloworld''] (Some [''ses-33_id-xyz_ranDUM-helloworld'']) True ErrorMode
     \<lparr>template_on = True,
      template_sub = Some (''sub-'' @ [CHR 0x5C] @ ''d_id-.?.?_random-.*''),
      template_ses = Some (''ses-'' @ [CHR 0x5C] @ ''d'' @ [CHR 0x5C] @ ''d_id-.?.?.?_random-.*'')\<rparr>
   = Inr ([], Some (TemplateMismatch ''ses-33_id-xyz_ranDUM-helloworld''
                      (''ses-'' @ [CHR 0x5C] @ ''d'' @ [CHR 0x5C] @ ''d_id-.?.?.?_random-.*'')))
   \<and> issue_message (TemplateMismatch ''ses-33_id-xyz_ranDUM-helloworld''
                      (''ses-'' @ [CHR 0x5C] @ ''d'' @ [CHR 0x5C] @ ''d_id-.?.?.?_random-.*''))
     = ''The name: ses-33_id-xyz_ranDUM-helloworld does not match the template: ses-''
         @ [CHR 0x5C] @ ''d'' @ [CHR 0x5C] @ ''d_id-.?.?.?_random-.*''
   \<and> validate_names_against_project
     (folders_of \<lparr>local = [''sub-2_id-ab_random-helloworld''], central = []\<rparr>
        (\<lambda>s. \<lparr>local = [''ses-33_id-xyz_random-helloworld''], central = []\<rparr>))
     (\<lambda>template name. name \<in> set [''sub-2_id-ab_random-helloworld'',
                                    ''ses-33_id-xyz_random-helloworld'']) ()
     [''sub-2_id-ab_random-helloworld''] (Some [''ses-02'']) True ErrorMode
     \<lparr>template_on = True,
      template_sub = Some (''sub-'' @ [CHR 0x5C] @ ''d_id-.?.?_random-.*''),
      template_ses = Some (''ses-'' @ [CHR 0x5C] @ ''d'' @ [CHR 0x5C] @ ''d_id-.?.?.?_random-.*'')\<rparr>
   = Inr ([], Some (TemplateMismatch ''ses-02''
                      (''ses-'' @ [CHR 0x5C] @ ''d'' @ [CHR 0x5C] @ ''d_id-.?.?.?_random-.*'')))
   \<and> validate_names_against_project
     (folders_of \<lparr>local = [''sub-2_id-ab_random-helloworld''], central = []\<rparr>
        (\<lambda>s. \<lparr>local = [''ses-33_id-xyz_random-helloworld''], central = []\<rparr>))
     (\<lambda>template name. name \<in> set [''sub-2_id-ab_random-helloworld'',
                                    ''ses-33_id-xyz_random-helloworld'']) ()
     [''sub-2_id-ab_random-helloworld''] (Some [''ses-02'']) True ErrorMode
     \<lparr>template_on = False,
      template_sub = Some (''sub-'' @ [CHR 0x5C] @ ''d_id-.?.?_random-.*''),
      template_ses = Some (''ses-'' @ [CHR 0x5C] @ ''d'' @ [CHR 0x5C] @ ''d_id-.?.?.?_random-.*'')\<rparr>
   = Inr ([], None)"
proof -
  let ?good_sub = "''sub-2_id-ab_random-helloworld''"
  let ?bad_sub = "''sub-3_id-abC_random-helloworld''"
  let ?good_ses = "''ses-33_id-xyz_random-helloworld''"
  let ?bad_ses = "''ses-33_id-xyz_ranDUM-helloworld''"
  let ?F = "folders_of \<lparr>local = [?good_sub], central = []\<rparr>
        (\<lambda>s. \<lparr>local = [?good_ses], central = []\<rparr>)"
  let ?re = "\<lambda>template name. name \<in> set [?good_sub, ?good_ses]"
  let ?sub = "''sub-'' @ [CHR 0x5C] @ ''d_id-.?.?_random-.*''"
  let ?ses = "''ses-'' @ [CHR 0x5C] @ ''d'' @ [CHR 0x5C] @ ''d_id-.?.?.?_random-.*''"
  let ?on = "\<lparr>template_on = True, template_sub = Some ?sub, template_ses = Some ?ses\<rparr>"
  let ?off = "\<lparr>template_on = False, template_sub = Some ?sub, template_ses = Some ?ses\<rparr>"
  let ?existing_ses = "[?good_sub \<mapsto> [?good_ses]]"
  have existing: "get_all_sub_and_ses_names ?F () True = Inr ([?good_sub], ?existing_ses)"
    by (simp add: get_all_sub_and_ses_names_def folders_of_def local_or_all_def)
  note bad_sub = template_mismatch_only_when_on[OF existing,
      where templates = ?on and template = ?sub and re_match = ?re
        and sub_names = "[?bad_sub]" and ses_names = None
        and matching = "[]" and name = ?bad_sub and rest = "[]",
      THEN conjunct1, THEN mp]
  note bad_ses = template_mismatch_only_when_on[OF existing,
      where templates = ?on and template = ?ses and re_match = ?re
        and sub_names = "[?good_sub]" and ses_names = "Some [?bad_ses]"
        and matching = "[]" and name = ?bad_ses and rest = "[]",
      THEN conjunct2, THEN conjunct1, THEN mp]
  note msg = template_mismatch_only_when_on[OF existing,
      where template = ?ses and name = ?bad_ses,
      THEN conjunct2, THEN conjunct2, THEN conjunct1]
  note on = template_mismatch_only_when_on[OF existing,
      where templates = ?on and template = ?ses and re_match = ?re
        and sub_names = "[?good_sub]" and ses_names = "Some [''ses-02'']"
        and matching = "[]" and name = "''ses-02''" and rest = "[]",
      THEN conjunct2, THEN conjunct1, THEN mp]
  note off = template_mismatch_only_when_on[OF existing,
      where templates = ?off and re_match = ?re and mode = ErrorMode
        and sub_names = "[?good_sub]" and ses_names = "Some [''ses-02'']",
      THEN conjunct2, THEN conjunct2, THEN conjunct2, THEN conjunct2, THEN mp,
      THEN conjunct2, THEN conjunct1]
  have c1: "validate_names_against_project ?F ?re () [?bad_sub] None True ErrorMode ?on
      = Inr ([], Some (TemplateMismatch ?bad_sub ?sub))"
    by (rule bad_sub) simp
  have c2: "validate_names_against_project ?F ?re () [?good_sub] (Some [?bad_ses]) True
      ErrorMode ?on = Inr ([], Some (TemplateMismatch ?bad_ses ?ses))"
    by (rule bad_ses) simp
  have c3: "issue_message (TemplateMismatch ?bad_ses ?ses)
     = ''The name: ses-33_id-xyz_ranDUM-helloworld does not match the template: ses-''
         @ [CHR 0x5C] @ ''d'' @ [CHR 0x5C] @ ''d_id-.?.?.?_random-.*''"
    using msg by simp
  have c4: "validate_names_against_project ?F ?re () [?good_sub] (Some [''ses-02'']) True
      ErrorMode ?on = Inr ([], Some (TemplateMismatch ''ses-02'' ?ses))"
    by (rule on) simp
  have consistent: "check_consistency ErrorMode [?good_sub] ?existing_ses [?good_sub]
      (Some [''ses-02'']) = ([], None)"
    by (simp add: validation_defs)
  have c5: "validate_names_against_project ?F ?re () [?good_sub] (Some [''ses-02'']) True
      ErrorMode ?off = Inr ([], None)"
    unfolding consistent[symmetric] by (rule off) simp
  from c1 c2 c3 c4 c5 show ?thesis by (intro conjI)
qed

subsection \<open>A name whose value is the prefix\<close>

lemma takeWhile_until:
  "c \<notin> set xs \<Longrightarrow> takeWhile (\<lambda>x. x \<noteq> c) (xs @ c # ys) = xs"
  by (induction xs) auto

lemma dropWhile_until:
  "c \<notin> set xs \<Longrightarrow> dropWhile (\<lambda>x. x \<noteq> c) (xs @ c # ys) = c # ys"
  by (induction xs) auto

lemma split_on_not_empty: "split_on c xs \<noteq> []"
  by (induction xs) (auto split: list.splits)

lemma hd_split_on:
  "c \<notin> set xs \<Longrightarrow> hd (split_on c (xs @ c # ys)) = xs"
  by (induction xs) (auto simp: split_on_not_empty split: list.splits)

lemma split_key_value_first:
  "CHR ''-'' \<notin> set key \<Longrightarrow> split_key_value (key @ CHR ''-'' # v) = Some (key, v)"
  by (simp add: split_key_value_def takeWhile_until dropWhile_until)

text \<open>
  Claim C8. A name \<open>prefix_rest\<close> (\<open>sub_100\<close>, \<open>ses_100\<close>) does not start with
  \<open>prefix-\<close>, so \<open>ensure_prefixes_on_list_of_names\<close> makes it \<open>prefix-prefix_rest\<close>; the
  primary value of that name is the prefix itself, and the parser rejects it with
  \<open>InvalidCharacter\<close>.
\<close>

theorem prefixed_name_with_prefix_as_value_is_invalid:
  assumes no_underscore: "CHR ''_'' \<notin> set prefix" and no_dash: "CHR ''-'' \<notin> set prefix"
  shows "ensure_prefixes_on_list_of_names [prefix @ ''_'' @ rest] (prefix @ ''-'')
           = [prefix @ ''-'' @ prefix @ ''_'' @ rest]
       \<and> get_value_from_key_model (prefix @ ''-'' @ prefix @ ''_'' @ rest) prefix = Inr prefix
       \<and> parse_name (prefix @ ''-'' @ prefix @ ''_'' @ rest) prefix = Inl (InvalidCharacter prefix)
       \<and> issue_message (InvalidCharacter prefix)
           = ''Invalid character in subject or session value: '' @ prefix"
proof -
  have prefixed: "ensure_prefixes_on_list_of_names [prefix @ ''_'' @ rest] (prefix @ ''-'')
           = [prefix @ ''-'' @ prefix @ ''_'' @ rest]"
    by (simp add: ensure_prefixes_on_list_of_names_def)
  have no_underscore': "CHR ''_'' \<notin> set (prefix @ CHR ''-'' # prefix)"
    using no_underscore by simp
  have name: "prefix @ ''-'' @ prefix @ ''_'' @ rest = (prefix @ CHR ''-'' # prefix) @ CHR ''_'' # rest"
    by simp
  have first: "takeWhile (\<lambda>c. c \<noteq> CHR ''_'') (prefix @ ''-'' @ prefix @ ''_'' @ rest)
      = prefix @ CHR ''-'' # prefix"
    unfolding name by (rule takeWhile_until[OF no_underscore'])
  have hd_first: "hd (split_on CHR ''_'' (prefix @ ''-'' @ prefix @ ''_'' @ rest))
      = prefix @ CHR ''-'' # prefix"
    unfolding name by (rule hd_split_on[OF no_underscore'])
  have kv: "split_key_value (prefix @ CHR ''-'' # prefix) = Some (prefix, prefix)"
    by (rule split_key_value_first[OF no_dash])
  have v: "get_value_from_key_model (prefix @ ''-'' @ prefix @ ''_'' @ rest) prefix = Inr prefix"
    unfolding get_value_from_key_model_def first kv by simp
  have p: "parse_name (prefix @ ''-'' @ prefix @ ''_'' @ rest) prefix = Inl (InvalidCharacter prefix)"
    unfolding parse_name_def Let_def hd_first kv by simp
  from prefixed v p show ?thesis by simp
qed

theorem prefixed_name_with_prefix_as_value_is_invalid_witness:
  "ensure_prefixes_on_list_of_names [''sub_100''] ''sub-'' = [''sub-sub_100'']
   \<and> get_value_from_key_model ''sub-sub_100'' ''sub'' = Inr ''sub''
   \<and> parse_name ''sub-sub_100'' ''sub'' = Inl (InvalidCharacter ''sub'')
   \<and> issue_message (InvalidCharacter ''sub'') = ''Invalid character in subject or session value: sub''
   \<and> ensure_prefixes_on_list_of_names [''ses_100''] ''ses-'' = [''ses-ses_100'']
   \<and> parse_name ''ses-ses_100'' ''ses'' = Inl (InvalidCharacter ''ses'')
   \<and> issue_message (InvalidCharacter ''ses'') = ''Invalid character in subject or session value: ses''"
proof -
  have s1: "CHR ''_'' \<notin> set ''sub''" and s2: "CHR ''-'' \<notin> set ''sub''" by simp_all
  have t1: "CHR ''_'' \<notin> set ''ses''" and t2: "CHR ''-'' \<notin> set ''ses''" by simp_all
  show ?thesis
    using prefixed_name_with_prefix_as_value_is_invalid[OF s1 s2, of "''100''"]
      prefixed_name_with_prefix_as_value_is_invalid[OF t1 t2, of "''100''"]
    by simp
qed

subsection \<open>Duplicate ids\<close>

lemma names_clash_iff:
  "names_clash prefix name other
     \<longleftrightarrow> (\<exists>v v'. get_value_from_key_model name prefix = Inr v
               \<and> get_value_from_key_model other prefix = Inr v'
               \<and> same_primary_value v v')
         \<and> name \<noteq> other"
  by (auto simp: names_clash_def split: sum.splits)

lemma duplicate_in_template_issues:
  "DuplicateId prefix name other \<notin> set (template_issues re_match templates p names)"
  by (cases "template_on templates"; cases "template_for templates p")
    (simp_all add: template_issues_def)

lemma duplicate_in_duplicate_issues:
  "DuplicateId prefix name other \<in> set (duplicate_issues p names others)
     \<longleftrightarrow> prefix = p \<and> name \<in> set names \<and> other \<in> set others \<and> names_clash p name other"
  by (auto simp: duplicate_issues_def)

lemma duplicate_in_level_issues:
  "DuplicateId prefix name other \<in> set (level_issues p existing_names new_names)
     \<longleftrightarrow> prefix = p \<and> names_clash p name other
         \<and> (name \<in> set new_names \<and> other \<in> set existing_names
            \<or> name \<in> set new_names \<and> other \<in> set new_names
            \<or> name \<in> set existing_names \<and> other \<in> set existing_names)"
  by (auto simp: level_issues_def duplicate_in_duplicate_issues)

lemma duplicate_in_scan_issues:
  "DuplicateId prefix name other
     \<in> set (scan_issues re_match templates existing_subs existing_ses sub_names ses_names)
   \<longleftrightarrow> names_clash prefix name other
       \<and> (prefix = ''sub''
            \<and> (name \<in> set sub_names \<and> other \<in> set existing_subs
               \<or> name \<in> set sub_names \<and> other \<in> set sub_names
               \<or> name \<in> set existing_subs \<and> other \<in> set existing_subs)
          \<or> prefix = ''ses''
            \<and> (\<exists>new_ses_names new_sub.
                  ses_names = Some new_ses_names \<and> new_sub \<in> set sub_names
                  \<and> (name \<in> set new_ses_names \<and> other \<in> set (existing_ses new_sub)
                     \<or> name \<in> set new_ses_names \<and> other \<in> set new_ses_names
                     \<or> name \<in> set (existing_ses new_sub)
                        \<and> other \<in> set (existing_ses new_sub))))"
proof (cases ses_names)
  case None
  show ?thesis
    unfolding scan_issues_def None option.case
    by (auto simp: duplicate_in_template_issues duplicate_in_level_issues)
next
  case (Some new_ses_names)
  show ?thesis
    unfolding scan_issues_def Some option.case
    by (auto simp: duplicate_in_template_issues duplicate_in_level_issues)
qed

text \<open>
  Claim C2, as amended. When every name has a value, \<open>validate_names_against_project\<close>
  raises nothing in warn mode, and it reports \<open>DuplicateId\<close> for two names exactly when
  they have the same primary value (numeric values compared as numbers), are not the same
  string, and are of one level: two subjects that are a candidate and an existing name, two
  candidates or two existing names; or two sessions that are, for some candidate subject, a
  candidate and an existing session of that subject, two candidates or two existing
  sessions of that subject. Two names that are the same string are never reported. In error
  mode the first issue of the warn mode report is raised, a \<open>DuplicateId\<close> only when no
  other issue comes before it.
\<close>

theorem duplicate_id_for_clashing_names:
  assumes existing: "get_all_sub_and_ses_names F cfg local_only = Inr (existing_subs, existing_ses)"
    and parsed: "names_have_values existing_subs (sessions_of existing_ses) sub_names ses_names"
    and warned: "validate_names_against_project F re_match cfg sub_names ses_names local_only
                   WarnMode templates = Inr warned"
  shows "snd warned = None
       \<and> (DuplicateId prefix name other \<in> set (fst warned)
          \<longleftrightarrow> ((\<exists>v v'. get_value_from_key_model name prefix = Inr v
                       \<and> get_value_from_key_model other prefix = Inr v'
                       \<and> same_primary_value v v')
                \<and> name \<noteq> other)
              \<and> (prefix = ''sub''
                   \<and> (name \<in> set sub_names \<and> other \<in> set existing_subs
                      \<or> name \<in> set sub_names \<and> other \<in> set sub_names
                      \<or> name \<in> set existing_subs \<and> other \<in> set existing_subs)
                 \<or> prefix = ''ses''
                   \<and> (\<exists>new_ses_names new_sub.
                         ses_names = Some new_ses_names \<and> new_sub \<in> set sub_names
                         \<and> (name \<in> set new_ses_names
                              \<and> other \<in> set (sessions_of existing_ses new_sub)
                            \<or> name \<in> set new_ses_names \<and> other \<in> set new_ses_names
                            \<or> name \<in> set (sessions_of existing_ses new_sub)
                              \<and> other \<in> set (sessions_of existing_ses new_sub)))))
       \<and> DuplicateId prefix name name \<notin> set (fst warned)
       \<and> validate_names_against_project F re_match cfg sub_names ses_names local_only
           ErrorMode templates
         = Inr ([], case fst warned of [] \<Rightarrow> None | issue # rest \<Rightarrow> Some issue)"
proof -
  let ?scan = "scan_issues re_match templates existing_subs (sessions_of existing_ses)
                 sub_names ses_names"
  have w: "warned = (?scan, None)"
    using validate_warned[OF existing parsed, of re_match templates] warned by simp
  have none: "snd warned = None" by (simp add: w)
  have member: "DuplicateId prefix name other \<in> set (fst warned)
          \<longleftrightarrow> ((\<exists>v v'. get_value_from_key_model name prefix = Inr v
                       \<and> get_value_from_key_model other prefix = Inr v'
                       \<and> same_primary_value v v')
                \<and> name \<noteq> other)
              \<and> (prefix = ''sub''
                   \<and> (name \<in> set sub_names \<and> other \<in> set existing_subs
                      \<or> name \<in> set sub_names \<and> other \<in> set sub_names
                      \<or> name \<in> set existing_subs \<and> other \<in> set existing_subs)
                 \<or> prefix = ''ses''
                   \<and> (\<exists>new_ses_names new_sub.
                         ses_names = Some new_ses_names \<and> new_sub \<in> set sub_names
                         \<and> (name \<in> set new_ses_names
                              \<and> other \<in> set (sessions_of existing_ses new_sub)
                            \<or> name \<in> set new_ses_names \<and> other \<in> set new_ses_names
                            \<or> name \<in> set (sessions_of existing_ses new_sub)
                              \<and> other \<in> set (sessions_of existing_ses new_sub))))"
    unfolding w fst_conv duplicate_in_scan_issues names_clash_iff ..
  have same: "DuplicateId prefix name name \<notin> set (fst warned)"
    unfolding w fst_conv duplicate_in_scan_issues names_clash_iff by simp
  have raised: "validate_names_against_project F re_match cfg sub_names ses_names local_only
           ErrorMode templates
         = Inr ([], case fst warned of [] \<Rightarrow> None | issue # rest \<Rightarrow> Some issue)"
    using first_issue_validate[OF warned] unfolding w first_issue_warned fst_conv .
  from none member same raised show ?thesis by (intro conjI)
qed

text \<open>
  The claim C2 as stated fails in error mode: the candidate \<open>sub-002\<close> has the primary value of
  the existing \<open>sub-2_id-b\<close> and is another string, and the error raised is
  \<open>InconsistentPadding\<close>, not \<open>DuplicateId\<close>. In warn mode both are reported, as
  \<open>test_validate_names_against_project\<close> expects.
\<close>

theorem clashing_candidate_raises_value_lengths:
  "get_value_from_key_model ''sub-002'' ''sub'' = Inr ''002''
   \<and> get_value_from_key_model ''sub-2_id-b'' ''sub'' = Inr ''2''
   \<and> same_primary_value ''002'' ''2''
   \<and> ''sub-002'' \<noteq> ''sub-2_id-b''
   \<and> validate_names_against_project
        (folders_of \<lparr>local = [''sub-1_id-@'', ''sub-2_id-b'', ''sub-3_id-c''], central = []\<rparr>
           (\<lambda>s. \<lparr>local = [], central = []\<rparr>))
        (\<lambda>template name. True) () [''sub-002''] None True ErrorMode get_name_templates_defaults
      = Inr ([], Some (InconsistentPadding ''sub''))
   \<and> validate_names_against_project
        (folders_of \<lparr>local = [''sub-1_id-@'', ''sub-2_id-b'', ''sub-3_id-c''], central = []\<rparr>
           (\<lambda>s. \<lparr>local = [], central = []\<rparr>))
        (\<lambda>template name. True) () [''sub-002''] None True WarnMode get_name_templates_defaults
      = Inr ([InconsistentPadding ''sub'', DuplicateId ''sub'' ''sub-002'' ''sub-2_id-b''], None)"
  by (simp add: validation_defs)

theorem duplicate_id_for_clashing_names_witness:
  "validate_names_against_project
     (folders_of \<lparr>local = [''sub-001_id-123'', ''sub-002_id-124''], central = []\<rparr>
        (\<lambda>s. \<lparr>local = [''ses-001_date-1605'', ''ses-002_date-1606''], central = []\<rparr>))
     (\<lambda>template name. True) () [''sub-001_id-125'', ''sub-002_id-124'']
     (Some [''ses-002_date-1607'']) True WarnMode get_name_templates_defaults
   = Inr ([DuplicateId ''sub'' ''sub-001_id-125'' ''sub-001_id-123'',
           DuplicateId ''ses'' ''ses-002_date-1607'' ''ses-002_date-1606''], None)
   \<and> validate_names_against_project
     (folders_of \<lparr>local = [''sub-001_id-123'', ''sub-002_id-124''], central = []\<rparr>
        (\<lambda>s. \<lparr>local = [''ses-001_date-1605'', ''ses-002_date-1606''], central = []\<rparr>))
     (\<lambda>template name. True) () [''sub-001_id-125'', ''sub-002_id-124'']
     (Some [''ses-002_date-1607'']) True ErrorMode get_name_templates_defaults
   = Inr ([], Some (DuplicateId ''sub'' ''sub-001_id-125'' ''sub-001_id-123''))
   \<and> (\<exists>v v'. get_value_from_key_model ''ses-002_date-1607'' ''ses'' = Inr v
            \<and> get_value_from_key_model ''ses-002_date-1606'' ''ses'' = Inr v'
            \<and> same_primary_value v v')
   \<and> ''ses-002_date-1607'' \<noteq> ''ses-002_date-1606''"
proof -
  let ?sessions = "[''ses-001_date-1605'', ''ses-002_date-1606'']"
  let ?F = "folders_of \<lparr>local = [''sub-001_id-123'', ''sub-002_id-124''], central = []\<rparr>
        (\<lambda>s. \<lparr>local = ?sessions, central = []\<rparr>)"
  let ?re = "\<lambda>template name. True"
  let ?existing_subs = "[''sub-001_id-123'', ''sub-002_id-124'']"
  let ?existing_ses = "[''sub-001_id-123'' \<mapsto> ?sessions, ''sub-002_id-124'' \<mapsto> ?sessions]"
  let ?sub_names = "[''sub-001_id-125'', ''sub-002_id-124'']"
  let ?ses_names = "Some [''ses-002_date-1607'']"
  let ?warned = "[DuplicateId ''sub'' ''sub-001_id-125'' ''sub-001_id-123'',
           DuplicateId ''ses'' ''ses-002_date-1607'' ''ses-002_date-1606'']"
  have existing: "get_all_sub_and_ses_names ?F () True = Inr (?existing_subs, ?existing_ses)"
    by (simp add: get_all_sub_and_ses_names_def folders_of_def local_or_all_def)
  have parsed: "names_have_values ?existing_subs (sessions_of ?existing_ses) ?sub_names ?ses_names"
    by (simp add: scan_defs sessions_of_def)
  have scan: "scan_issues ?re get_name_templates_defaults ?existing_subs
      (sessions_of ?existing_ses) ?sub_names ?ses_names = ?warned"
    by (simp add: scan_issues_def level_issues_def get_name_templates_defaults_def scan_defs
        sessions_of_def)
  have warned: "validate_names_against_project ?F ?re () ?sub_names ?ses_names True WarnMode
      get_name_templates_defaults = Inr (?warned, None)"
    using validate_warned[OF existing parsed, of ?re get_name_templates_defaults]
    unfolding scan .
  note clashing = duplicate_id_for_clashing_names[OF existing parsed warned,
      where prefix = "''ses''" and name = "''ses-002_date-1607''"
        and other = "''ses-002_date-1606''"]
  have reported: "DuplicateId ''ses'' ''ses-002_date-1607'' ''ses-002_date-1606''
      \<in> set (fst (?warned, None :: validation_issue option))"
    by simp
  have clash: "(\<exists>v v'. get_value_from_key_model ''ses-002_date-1607'' ''ses'' = Inr v
            \<and> get_value_from_key_model ''ses-002_date-1606'' ''ses'' = Inr v'
            \<and> same_primary_value v v')
      \<and> ''ses-002_date-1607'' \<noteq> ''ses-002_date-1606''"
    using clashing[THEN conjunct2, THEN conjunct1, THEN iffD1, OF reported]
    by (rule conjunct1)
  have raised: "validate_names_against_project ?F ?re () ?sub_names ?ses_names True ErrorMode
      get_name_templates_defaults
    = Inr ([], Some (DuplicateId ''sub'' ''sub-001_id-125'' ''sub-001_id-123''))"
    using clashing[THEN conjunct2, THEN conjunct2, THEN conjunct2] by simp
  from warned raised clash[THEN conjunct1] clash[THEN conjunct2] show ?thesis
    by (intro conjI)
qed

end
